theory Spec2Isabelle
  imports Complex_Main "HOL-Library.Word"
begin

section \<open>The OSM entities read by the XML encoder\<close>

text \<open>
  The entity classes, the buffer and the text helpers live outside the two source files
  (\<^verbatim>\<open>xml_output_format.hpp\<close>, \<^verbatim>\<open>thread/util.hpp\<close>). An entity is modelled by the values
  its accessors return to the encoder. Integers have the width of the conversion they are
  printed with (\<^verbatim>\<open>PRId64\<close> for ids and references, \<^verbatim>\<open>%d\<close> and \<^verbatim>\<open>PRId32\<close> for the rest).
\<close>

type_synonym double = real
  \<comment> \<open>the value of a finite C++ \<^verbatim>\<open>double\<close>; the encoder computes nothing with it and
      only hands it to a formatting routine\<close>

type_synonym Timestamp = "32 word"
  \<comment> \<open>Modelled from the spec: the timestamp is optional; the unset timestamp is the one
      that converts to \<^verbatim>\<open>false\<close>, which is 0 as for \<^verbatim>\<open>version()\<close> and \<^verbatim>\<open>changeset()\<close>\<close>

record Location =
  lat_without_check :: double
  lon_without_check :: double

record Box =
  bottom_left :: Location
  top_right :: Location

type_synonym TagList = "(string \<times> string) list"
  \<comment> \<open>\<^verbatim>\<open>tag.key()\<close>, \<^verbatim>\<open>tag.value()\<close>, in the order of the list\<close>

record OSMObject =
  object_id :: "64 word"
  version :: "32 word"
  timestamp :: Timestamp
  uid :: "32 word"
  user :: string
  object_changeset :: "32 word"
  visible :: bool
  tags :: TagList

text \<open>Modelled from the spec: the author is anonymous when the uid is absent, that is 0.\<close>

definition user_is_anonymous :: "'a OSMObject_scheme \<Rightarrow> bool" where
  "user_is_anonymous object = (uid object = 0)"

record Node = OSMObject +
  location :: "Location option"
  \<comment> \<open>\<^verbatim>\<open>None\<close> when \<^verbatim>\<open>node.location()\<close> converts to \<^verbatim>\<open>false\<close> (no coordinates known)\<close>

record Way = OSMObject +
  nodes :: "64 word list"
  \<comment> \<open>\<^verbatim>\<open>node_ref.ref()\<close> of each node reference\<close>

datatype item_type = it_node | it_way | it_relation

record RelationMember =
  member_type :: item_type
  member_ref :: "64 word"
  role :: string

record Relation = OSMObject +
  members :: "RelationMember list"

record ChangesetComment =
  comment_uid :: "32 word"
  comment_user :: string
  comment_date :: Timestamp
  comment_text :: string

record Changeset =
  cs_id :: "32 word"
  created_at :: Timestamp
  closed_at :: Timestamp
  cs_uid :: "32 word"
  cs_user :: string
  bounds :: "Box option"
  \<comment> \<open>\<^verbatim>\<open>None\<close> when \<^verbatim>\<open>changeset.bounds()\<close> converts to \<^verbatim>\<open>false\<close>\<close>
  num_changes :: "32 word"
  num_comments :: "32 word"
  cs_tags :: TagList
  discussion :: "ChangesetComment list"

definition cs_user_is_anonymous :: "Changeset \<Rightarrow> bool" where
  "cs_user_is_anonymous changeset = (cs_uid changeset = 0)"

text \<open>
  An input buffer is the sequence of its entities; \<^verbatim>\<open>osmium::apply\<close> hands each one to the
  handler function of its type.
\<close>

datatype item =
  INode Node
| IWay Way
| IRelation Relation
| IChangeset Changeset

type_synonym Buffer = "item list"

section \<open>The output string\<close>

text \<open>
  The encoder builds its \<^verbatim>\<open>std::string\<close> by appending. Each appended piece is either text
  written by the encoder itself or the result of a routine defined outside the two source
  files. The output is kept as the sequence of these pieces, so that what the encoder wrote
  stays apart from what a formatting routine returned; \<open>text_of\<close> gives the string.
\<close>

datatype token =
  Lit string
    \<comment> \<open>\<^verbatim>\<open>out += "..."\<close>, and the text of a \<^verbatim>\<open>printf\<close> format around its conversion\<close>
| Dec int
    \<comment> \<open>an integer printed by \<^verbatim>\<open>%d\<close>, \<^verbatim>\<open>PRId32\<close> or \<^verbatim>\<open>PRId64\<close>\<close>
| Xml string
    \<comment> \<open>\<^verbatim>\<open>append_xml_encoded_string(out, s)\<close>\<close>
| Iso Timestamp
    \<comment> \<open>\<^verbatim>\<open>out += t.to_iso()\<close>\<close>
| D2s double
    \<comment> \<open>\<^verbatim>\<open>osmium::util::double2string(std::back_inserter(out), d, 7)\<close>\<close>
| Fixed7 double
    \<comment> \<open>a \<^verbatim>\<open>double\<close> printed by \<^verbatim>\<open>%.7f\<close>\<close>
| TypeName item_type
    \<comment> \<open>\<^verbatim>\<open>out += item_type_to_name(t)\<close>\<close>

record helpers =
  append_xml_encoded_string :: "string \<Rightarrow> string"
  to_iso :: "Timestamp \<Rightarrow> string"
  double2string :: "double \<Rightarrow> string"
  printf_7f :: "double \<Rightarrow> string"
  item_type_to_name :: "item_type \<Rightarrow> string"

definition digit :: "nat \<Rightarrow> char" where
  "digit n = ''0123456789'' ! (n mod 10)"

fun dec_nat :: "nat \<Rightarrow> string" where
  "dec_nat n = (if n < 10 then [digit n] else dec_nat (n div 10) @ [digit n])"

declare dec_nat.simps [simp del]

definition dec :: "int \<Rightarrow> string" where
  "dec i = (if i < 0 then CHR ''-'' # dec_nat (nat (- i)) else dec_nat (nat i))"

fun token_text :: "helpers \<Rightarrow> token \<Rightarrow> string" where
  "token_text h (Lit s) = s"
| "token_text h (Dec i) = dec i"
| "token_text h (Xml s) = append_xml_encoded_string h s"
| "token_text h (Iso t) = to_iso h t"
| "token_text h (D2s d) = double2string h d"
| "token_text h (Fixed7 d) = printf_7f h d"
| "token_text h (TypeName t) = item_type_to_name h t"

definition text_of :: "helpers \<Rightarrow> token list \<Rightarrow> string" where
  "text_of h ts = concat (map (token_text h) ts)"

section \<open>XMLOutputBlock\<close>

record xml_output_options =
  add_metadata :: bool
  add_visible_flag :: bool
  use_change_ops :: bool

datatype operation = op_none | op_create | op_modify | op_delete

record XMLOutputBlock =
  m_input_buffer :: Buffer
  m_out :: "token list"
  m_last_op :: operation
  m_options :: xml_output_options

text \<open>The constructor: \<^verbatim>\<open>m_last_op {operation::op_none}\<close>, an empty output string.\<close>

definition new_XMLOutputBlock :: "Buffer \<Rightarrow> xml_output_options \<Rightarrow> XMLOutputBlock" where
  "new_XMLOutputBlock buffer options =
     \<lparr>m_input_buffer = buffer, m_out = [], m_last_op = op_none, m_options = options\<rparr>"

definition emit :: "token list \<Rightarrow> XMLOutputBlock \<Rightarrow> XMLOutputBlock" where
  "emit ts b = b\<lparr>m_out := m_out b @ ts\<rparr>"

text \<open>\<^verbatim>\<open>output_formatted(fmt, n)\<close> for a format \<open>pre\<close> \<^verbatim>\<open>%d\<close> \<open>post\<close> and an integer.\<close>

definition output_formatted :: "string \<Rightarrow> int \<Rightarrow> string \<Rightarrow> XMLOutputBlock \<Rightarrow> XMLOutputBlock" where
  "output_formatted pre n post = emit [Lit pre, Dec n, Lit post]"

text \<open>\<^verbatim>\<open>output_formatted(fmt, d)\<close> for a format \<open>pre\<close> \<^verbatim>\<open>%.7f\<close> \<open>post\<close> and a double.\<close>

definition output_formatted_7f :: "string \<Rightarrow> double \<Rightarrow> string \<Rightarrow> XMLOutputBlock \<Rightarrow> XMLOutputBlock" where
  "output_formatted_7f pre d post = emit [Lit pre, Fixed7 d, Lit post]"

text \<open>
  \<^verbatim>\<open>write_spaces(int num)\<close> counts \<open>num\<close> down to 0; it is only called with 0, 2 and 4.
\<close>

fun write_spaces :: "nat \<Rightarrow> XMLOutputBlock \<Rightarrow> XMLOutputBlock" where
  "write_spaces 0 b = b"
| "write_spaces (Suc num) b = write_spaces num (emit [Lit '' ''] b)"

definition prefix_spaces :: "XMLOutputBlock \<Rightarrow> nat" where
  "prefix_spaces b = (if use_change_ops (m_options b) then 4 else 2)"

definition write_prefix :: "XMLOutputBlock \<Rightarrow> XMLOutputBlock" where
  "write_prefix b = write_spaces (prefix_spaces b) b"

definition write_meta :: "'a OSMObject_scheme \<Rightarrow> XMLOutputBlock \<Rightarrow> XMLOutputBlock" where
  "write_meta object b0 =
     (let b1 = output_formatted '' id=\"'' (sint (object_id object)) ''\"'' b0 in
      if add_metadata (m_options b1) then
        let b2 = (if version object \<noteq> 0
                  then output_formatted '' version=\"'' (sint (version object)) ''\"'' b1
                  else b1);
            b3 = (if timestamp object \<noteq> 0
                  then emit [Lit '' timestamp=\"'', Iso (timestamp object), Lit ''\"''] b2
                  else b2);
            b4 = (if \<not> user_is_anonymous object
                  then emit [Xml (user object), Lit ''\"'']
                         (output_formatted '' uid=\"'' (sint (uid object)) ''\" user=\"'' b3)
                  else b3);
            b5 = (if object_changeset object \<noteq> 0
                  then output_formatted '' changeset=\"'' (sint (object_changeset object)) ''\"'' b4
                  else b4)
        in if add_visible_flag (m_options b5) then
             if visible object then emit [Lit '' visible=\"true\"''] b5
             else emit [Lit '' visible=\"false\"''] b5
           else b5
      else b1)"

fun write_tags :: "TagList \<Rightarrow> nat \<Rightarrow> XMLOutputBlock \<Rightarrow> XMLOutputBlock" where
  "write_tags [] spaces b = b"
| "write_tags (tag # rest) spaces b =
     write_tags rest spaces
       (emit [Lit ''  <tag k=\"'', Xml (fst tag), Lit ''\" v=\"'', Xml (snd tag), Lit ''\"/>\<newline>'']
          (write_spaces spaces b))"

fun write_comments :: "ChangesetComment list \<Rightarrow> XMLOutputBlock \<Rightarrow> XMLOutputBlock" where
  "write_comments [] b = b"
| "write_comments (comment # rest) b =
     write_comments rest
       (emit [Xml (comment_user comment), Lit ''\" date=\"'', Iso (comment_date comment),
              Lit ''\">\<newline>'', Lit ''    <text>'', Xml (comment_text comment),
              Lit ''</text>\<newline>   </comment>\<newline>'']
          (output_formatted ''   <comment uid=\"'' (sint (comment_uid comment)) ''\" user=\"'' b))"

definition write_discussion :: "ChangesetComment list \<Rightarrow> XMLOutputBlock \<Rightarrow> XMLOutputBlock" where
  "write_discussion comments b = emit [Lit ''  </discussion>\<newline>''] (write_comments comments b)"

fun close_op_text :: "operation \<Rightarrow> token list" where
  "close_op_text op_none = []"
| "close_op_text op_create = [Lit ''  </create>\<newline>'']"
| "close_op_text op_modify = [Lit ''  </modify>\<newline>'']"
| "close_op_text op_delete = [Lit ''  </delete>\<newline>'']"

fun open_op_text :: "operation \<Rightarrow> token list" where
  "open_op_text op_none = []"
| "open_op_text op_create = [Lit ''  <create>\<newline>'']"
| "open_op_text op_modify = [Lit ''  <modify>\<newline>'']"
| "open_op_text op_delete = [Lit ''  <delete>\<newline>'']"

definition open_close_op_tag :: "operation \<Rightarrow> XMLOutputBlock \<Rightarrow> XMLOutputBlock" where
  "open_close_op_tag op b =
     (if op = m_last_op b then b
      else (emit (open_op_text op) (emit (close_op_text (m_last_op b)) b))\<lparr>m_last_op := op\<rparr>)"

text \<open>
  The argument the three object functions pass to \<^verbatim>\<open>open_close_op_tag\<close>:
  \<^verbatim>\<open>visible() ? (version() == 1 ? op_create : op_modify) : op_delete\<close>.
\<close>

definition object_operation :: "'a OSMObject_scheme \<Rightarrow> operation" where
  "object_operation object =
     (if visible object then (if version object = 1 then op_create else op_modify)
      else op_delete)"

definition node :: "Node \<Rightarrow> XMLOutputBlock \<Rightarrow> XMLOutputBlock" where
  "node n b0 =
     (let b1 = (if use_change_ops (m_options b0)
                then open_close_op_tag (object_operation n) b0 else b0);
          b2 = write_meta n (emit [Lit ''<node''] (write_prefix b1));
          b3 = (case location n of
                  Some l \<Rightarrow>
                    emit [Lit '' lat=\"'', D2s (lat_without_check l), Lit ''\" lon=\"'',
                          D2s (lon_without_check l), Lit ''\"''] b2
                | None \<Rightarrow> b2)
      in if tags n = [] then emit [Lit ''/>\<newline>''] b3
         else let b4 = emit [Lit ''>\<newline>''] b3;
                  b5 = write_tags (tags n) (prefix_spaces b4) b4
              in emit [Lit ''</node>\<newline>''] (write_prefix b5))"

fun write_nds :: "64 word list \<Rightarrow> XMLOutputBlock \<Rightarrow> XMLOutputBlock" where
  "write_nds [] b = b"
| "write_nds (ref # rest) b =
     write_nds rest (output_formatted ''  <nd ref=\"'' (sint ref) ''\"/>\<newline>'' (write_prefix b))"

definition way :: "Way \<Rightarrow> XMLOutputBlock \<Rightarrow> XMLOutputBlock" where
  "way w b0 =
     (let b1 = (if use_change_ops (m_options b0)
                then open_close_op_tag (object_operation w) b0 else b0);
          b2 = write_meta w (emit [Lit ''<way''] (write_prefix b1))
      in if tags w = [] \<and> nodes w = [] then emit [Lit ''/>\<newline>''] b2
         else let b3 = emit [Lit ''>\<newline>''] b2;
                  b4 = write_nds (nodes w) b3;
                  b5 = write_tags (tags w) (prefix_spaces b4) b4
              in emit [Lit ''</way>\<newline>''] (write_prefix b5))"

fun write_members :: "RelationMember list \<Rightarrow> XMLOutputBlock \<Rightarrow> XMLOutputBlock" where
  "write_members [] b = b"
| "write_members (member # rest) b =
     write_members rest
       (emit [Xml (role member), Lit ''\"/>\<newline>'']
          (output_formatted ''\" ref=\"'' (sint (member_ref member)) ''\" role=\"''
             (emit [Lit ''  <member type=\"'', TypeName (member_type member)] (write_prefix b))))"

definition relation :: "Relation \<Rightarrow> XMLOutputBlock \<Rightarrow> XMLOutputBlock" where
  "relation r b0 =
     (let b1 = (if use_change_ops (m_options b0)
                then open_close_op_tag (object_operation r) b0 else b0);
          b2 = write_meta r (emit [Lit ''<relation''] (write_prefix b1))
      in if tags r = [] \<and> members r = [] then emit [Lit ''/>\<newline>''] b2
         else let b3 = emit [Lit ''>\<newline>''] b2;
                  b4 = write_members (members r) b3;
                  b5 = write_tags (tags r) (prefix_spaces b4) b4
              in emit [Lit ''</relation>\<newline>''] (write_prefix b5))"

definition changeset :: "Changeset \<Rightarrow> XMLOutputBlock \<Rightarrow> XMLOutputBlock" where
  "changeset c b0 =
     (let b1 = output_formatted '' id=\"'' (sint (cs_id c)) ''\"'' (emit [Lit '' <changeset''] b0);
          b2 = (if created_at c \<noteq> 0
                then emit [Lit '' created_at=\"'', Iso (created_at c), Lit ''\"''] b1
                else b1);
          b3 = (if closed_at c \<noteq> 0
                then emit [Lit '' closed_at=\"'', Iso (closed_at c), Lit ''\" open=\"false\"''] b2
                else emit [Lit '' open=\"true\"''] b2);
          b4 = (if \<not> cs_user_is_anonymous c
                then output_formatted ''\" uid=\"'' (sint (cs_uid c)) ''\"''
                       (emit [Lit '' user=\"'', Xml (cs_user c)] b3)
                else b3);
          b5 = (case bounds c of
                  Some box \<Rightarrow>
                    output_formatted_7f '' max_lon=\"'' (lon_without_check (top_right box)) ''\"''
                      (output_formatted_7f '' max_lat=\"'' (lat_without_check (top_right box)) ''\"''
                        (output_formatted_7f '' min_lon=\"'' (lon_without_check (bottom_left box)) ''\"''
                          (output_formatted_7f '' min_lat=\"'' (lat_without_check (bottom_left box)) ''\"''
                             b4)))
                | None \<Rightarrow> b4);
          b6 = output_formatted '' comments_count=\"'' (sint (num_comments c)) ''\"''
                 (output_formatted '' num_changes=\"'' (sint (num_changes c)) ''\"'' b5)
      in if cs_tags c = [] \<and> num_comments c = 0 then emit [Lit ''/>\<newline>''] b6
         else let b7 = write_tags (cs_tags c) 0 (emit [Lit ''>\<newline>''] b6);
                  b8 = (if 0 < num_comments c
                        then write_discussion (discussion c) (emit [Lit ''  <discussion>\<newline>''] b7)
                        else b7)
              in emit [Lit '' </changeset>\<newline>''] b8)"

text \<open>\<^verbatim>\<open>osmium::apply\<close> over the buffer, with the block as the handler.\<close>

fun apply_item :: "item \<Rightarrow> XMLOutputBlock \<Rightarrow> XMLOutputBlock" where
  "apply_item (INode n) b = node n b"
| "apply_item (IWay w) b = way w b"
| "apply_item (IRelation r) b = relation r b"
| "apply_item (IChangeset c) b = changeset c b"

fun apply_items :: "item list \<Rightarrow> XMLOutputBlock \<Rightarrow> XMLOutputBlock" where
  "apply_items [] b = b"
| "apply_items (i # rest) b = apply_items rest (apply_item i b)"

text \<open>
  \<^verbatim>\<open>operator()\<close>: the returned string is swapped out of \<^verbatim>\<open>m_out\<close>, which is left empty.
\<close>

definition call_operator :: "XMLOutputBlock \<Rightarrow> token list \<times> XMLOutputBlock" where
  "call_operator b0 =
     (let b1 = apply_items (m_input_buffer b0) b0;
          b2 = (if use_change_ops (m_options b1) then open_close_op_tag op_none b1 else b1)
      in (m_out b2, b2\<lparr>m_out := []\<rparr>))"

section \<open>XMLOutputFormat\<close>

text \<open>
  The file exposes the lookups \<^verbatim>\<open>is_true(name)\<close>, \<^verbatim>\<open>is_not_false(name)\<close> and
  \<^verbatim>\<open>has_multiple_object_versions()\<close>; the header exposes \<^verbatim>\<open>get(name)\<close> and \<^verbatim>\<open>boxes()\<close>.
\<close>

record File =
  is_true :: "string \<Rightarrow> bool"
  is_not_false :: "string \<Rightarrow> bool"
  has_multiple_object_versions :: bool

record Header =
  header_get :: "string \<Rightarrow> string"
  boxes :: "Box list"

text \<open>
  The constructor sets the three options in this order; \<^verbatim>\<open>add_visible_flag\<close> reads the
  \<^verbatim>\<open>use_change_ops\<close> just set.
\<close>

definition XMLOutputFormat :: "File \<Rightarrow> xml_output_options" where
  "XMLOutputFormat file =
     (let o1 = \<lparr>add_metadata = is_not_false file ''add_metadata'',
                add_visible_flag = False, use_change_ops = False\<rparr>;
          o2 = o1\<lparr>use_change_ops := is_true file ''xml_change_format''\<rparr>
      in o2\<lparr>add_visible_flag :=
               (has_multiple_object_versions file \<or> is_true file ''force_visible_flag'')
               \<and> \<not> use_change_ops o2\<rparr>)"

text \<open>\<^verbatim>\<open>append_printf_formatted_string(out, fmt, d)\<close> for a format \<open>pre\<close> \<^verbatim>\<open>%.7f\<close> \<open>post\<close>.\<close>

definition append_printf_formatted_string :: "string \<Rightarrow> double \<Rightarrow> string \<Rightarrow> token list" where
  "append_printf_formatted_string pre d post = [Lit pre, Fixed7 d, Lit post]"

text \<open>
  Modelled from the spec: the entity object model and its accessors are external
  collaborators there; missing under the source files are \<^verbatim>\<open>valid()\<close>, \<^verbatim>\<open>lon()\<close> and
  \<^verbatim>\<open>lat()\<close> of \<^verbatim>\<open>Location\<close>. By their contract a location is valid when its longitude is
  within -180 and 180 and its latitude within -90 and 90 (the undefined location is not),
  and the checking accessors \<^verbatim>\<open>lon()\<close> and \<^verbatim>\<open>lat()\<close> throw \<^verbatim>\<open>invalid_location\<close> on a
  location that is not valid and return the coordinate otherwise. The other functions of
  the encoder read coordinates through \<^verbatim>\<open>lat_without_check()\<close> and
  \<^verbatim>\<open>lon_without_check()\<close>, which never throw.
\<close>

datatype exception = invalid_location

definition valid_location :: "Location \<Rightarrow> bool" where
  "valid_location l =
     (- 180 \<le> lon_without_check l \<and> lon_without_check l \<le> 180 \<and>
      - 90 \<le> lat_without_check l \<and> lat_without_check l \<le> 90)"

definition lon :: "Location \<Rightarrow> exception + double" where
  "lon l = (if valid_location l then Inr (lon_without_check l) else Inl invalid_location)"

definition lat :: "Location \<Rightarrow> exception + double" where
  "lat l = (if valid_location l then Inr (lat_without_check l) else Inl invalid_location)"

text \<open>A box both of whose corners are valid.\<close>

definition valid_box :: "Box \<Rightarrow> bool" where
  "valid_box box = (valid_location (bottom_left box) \<and> valid_location (top_right box))"

text \<open>Sequencing: an exception ends the function, a value goes on to the next statement.\<close>

definition and_then :: "exception + 'a \<Rightarrow> ('a \<Rightarrow> exception + 'b) \<Rightarrow> exception + 'b" where
  "and_then r f = (case r of Inl e \<Rightarrow> Inl e | Inr x \<Rightarrow> f x)"

text \<open>
  The loop over \<^verbatim>\<open>header.boxes()\<close>. Each box reads \<^verbatim>\<open>bottom_left().lon()\<close>,
  \<^verbatim>\<open>bottom_left().lat()\<close>, \<^verbatim>\<open>top_right().lon()\<close> and \<^verbatim>\<open>top_right().lat()\<close> in this order;
  the first of them that throws ends \<^verbatim>\<open>write_header\<close>.
\<close>

fun header_bounds :: "Box list \<Rightarrow> exception + token list" where
  "header_bounds [] = Inr []"
| "header_bounds (box # rest) =
     and_then (lon (bottom_left box)) (\<lambda>minlon.
     and_then (lat (bottom_left box)) (\<lambda>minlat.
     and_then (lon (top_right box)) (\<lambda>maxlon.
     and_then (lat (top_right box)) (\<lambda>maxlat.
     and_then (header_bounds rest) (\<lambda>more.
       Inr ([Lit ''  <bounds''] @
            append_printf_formatted_string '' minlon=\"'' minlon ''\"'' @
            append_printf_formatted_string '' minlat=\"'' minlat ''\"'' @
            append_printf_formatted_string '' maxlon=\"'' maxlon ''\"'' @
            append_printf_formatted_string '' maxlat=\"'' maxlat ''\"/>\<newline>'' @
            more))))))"

text \<open>
  \<^verbatim>\<open>write_header\<close> and \<^verbatim>\<open>write_end\<close>: the string handed to \<^verbatim>\<open>send_to_output_queue\<close>.
  When a box corner throws, \<^verbatim>\<open>write_header\<close> is left before \<^verbatim>\<open>send_to_output_queue\<close>
  and nothing is sent.
\<close>

definition xml_declaration :: string where
  "xml_declaration =
     ''<?xml version='' @ [CHR 0x27] @ ''1.0'' @ [CHR 0x27] @ '' encoding='' @ [CHR 0x27] @
     ''UTF-8'' @ [CHR 0x27] @ ''?>\<newline>''"

definition write_header :: "xml_output_options \<Rightarrow> Header \<Rightarrow> exception + token list" where
  "write_header options header =
     (let out =
        [Lit xml_declaration] @
        (if use_change_ops options then [Lit ''<osmChange version=\"0.6\" generator=\"'']
         else
           [Lit ''<osm version=\"0.6\"''] @
           (let xml_josm_upload = header_get header ''xml_josm_upload'' in
            if xml_josm_upload = ''true'' \<or> xml_josm_upload = ''false''
            then [Lit '' upload=\"'', Lit xml_josm_upload, Lit ''\"'']
            else []) @
           [Lit '' generator=\"'']) @
        [Xml (header_get header ''generator''), Lit ''\">\<newline>'']
      in and_then (header_bounds (boxes header)) (\<lambda>bounds. Inr (out @ bounds)))"

definition write_end :: "xml_output_options \<Rightarrow> token list" where
  "write_end options =
     (if use_change_ops options then [Lit ''</osmChange>\<newline>''] else [Lit ''</osm>\<newline>''])"

text \<open>\<^verbatim>\<open>write_buffer\<close> submits this block to the thread pool; a worker calls it once.\<close>

definition write_buffer :: "xml_output_options \<Rightarrow> Buffer \<Rightarrow> XMLOutputBlock" where
  "write_buffer options buffer = new_XMLOutputBlock buffer options"

section \<open>check_for_exception\<close>

text \<open>
  \<^verbatim>\<open>std::future\<close> belongs to the C++ standard library and is modelled by its contract.
  A \<^verbatim>\<open>std::future<T>\<close> either has no shared state (\<^verbatim>\<open>valid()\<close> is false) or refers to one.
  The shared state is not ready yet, holds a deferred function (with the result it gives
  when run), or is ready with a value or with an exception.
\<close>

datatype ('a, 'e) shared_state =
  not_ready
| is_deferred "'e + 'a"
| ready_value 'a
| ready_exception 'e

type_synonym ('a, 'e) future = "('a, 'e) shared_state option"

datatype future_status = ready | timeout | deferred

definition valid :: "('a, 'e) future \<Rightarrow> bool" where
  "valid f = (f \<noteq> None)"

text \<open>\<^verbatim>\<open>wait_for(std::chrono::seconds(0))\<close>: the status now, without waiting.\<close>

fun wait_for_0 :: "('a, 'e) future \<Rightarrow> future_status" where
  "wait_for_0 (Some (ready_value v)) = ready"
| "wait_for_0 (Some (ready_exception e)) = ready"
| "wait_for_0 (Some (is_deferred r)) = deferred"
| "wait_for_0 _ = timeout"

datatype ('a, 'e) outcome =
  Returns 'a
| Throws 'e
| Blocks
| Undefined_behaviour

text \<open>
  \<^verbatim>\<open>get()\<close> waits for the result, returns the value or throws the stored exception, and
  releases the shared state. It is undefined on a future that is not valid.
\<close>

fun get :: "('a, 'e) future \<Rightarrow> ('a, 'e) outcome \<times> ('a, 'e) future" where
  "get None = (Undefined_behaviour, None)"
| "get (Some not_ready) = (Blocks, Some not_ready)"
| "get (Some (is_deferred (Inl e))) = (Throws e, None)"
| "get (Some (is_deferred (Inr v))) = (Returns v, None)"
| "get (Some (ready_value v)) = (Returns v, None)"
| "get (Some (ready_exception e)) = (Throws e, None)"

definition check_for_exception :: "('a, 'e) future \<Rightarrow> (unit, 'e) outcome \<times> ('a, 'e) future" where
  "check_for_exception f =
     (if valid f \<and> wait_for_0 f = ready then
        (case get f of
           (Returns v, f') \<Rightarrow> (Returns (), f')
         | (Throws e, f') \<Rightarrow> (Throws e, f')
         | (Blocks, f') \<Rightarrow> (Blocks, f')
         | (Undefined_behaviour, f') \<Rightarrow> (Undefined_behaviour, f'))
      else (Returns (), f))"

section \<open>The session: controller, workers and drain\<close>

text \<open>
  Modelled from the spec: the Pending Result, the Ordered Output Queue, the worker pool and
  the drain step are outside the two source files. A Pending Result is created at
  submission holding its block task and is fulfilled exactly once, by a worker, with the
  string the block returns.
\<close>

datatype pending_result = Pending XMLOutputBlock | Fulfilled "token list"

text \<open>
  Modelled from the spec: a session is the Ordered Output Queue (head first) and the
  strings the sink has received so far.
\<close>

record session =
  m_output_queue :: "pending_result list"
  sink :: "token list list"

definition new_session :: session where
  "new_session = \<lparr>m_output_queue = [], sink = []\<rparr>"

text \<open>
  Modelled from the spec: what can happen next in a session. The controller calls
  \<open>write_header\<close>, \<open>write_buffer\<close> or \<open>write_end\<close>; a worker completes the task at
  some position of the queue, in any order; the drain step runs.
\<close>

datatype event =
  Write_header Header
| Write_buffer Buffer
| Write_end
| Worker_completes nat
| Drain

text \<open>Modelled from the spec: \<open>push(handle)\<close> appends and never blocks.\<close>

definition push :: "pending_result \<Rightarrow> session \<Rightarrow> session" where
  "push p s = s\<lparr>m_output_queue := m_output_queue s @ [p]\<rparr>"

text \<open>
  Modelled from the spec: a worker performs the block task once and fulfils its result;
  a result already fulfilled stays as it is.
\<close>

fun fulfil :: "pending_result \<Rightarrow> pending_result" where
  "fulfil (Pending block) = Fulfilled (fst (call_operator block))"
| "fulfil (Fulfilled out) = Fulfilled out"

text \<open>
  Modelled from the spec: \<open>pop_next_ready_or_wait()\<close> removes the head handle and hands
  its string to the sink. While the head is not fulfilled the drain waits, also when later
  handles are fulfilled already: the step changes nothing.
\<close>

definition pop_next_ready_or_wait :: "session \<Rightarrow> session" where
  "pop_next_ready_or_wait s =
     (case m_output_queue s of
        Fulfilled out # rest \<Rightarrow> s\<lparr>m_output_queue := rest, sink := sink s @ [out]\<rparr>
      | _ \<Rightarrow> s)"

text \<open>
  The three calls are those of \<open>XMLOutputFormat\<close>: the header and the footer are pushed
  as fulfilled results (\<^verbatim>\<open>send_to_output_queue\<close>), a buffer as the pending result of its
  block. When \<open>write_header\<close> throws, nothing is pushed and the exception reaches the
  caller.
\<close>

fun step :: "xml_output_options \<Rightarrow> event \<Rightarrow> session \<Rightarrow> exception + session" where
  "step options (Write_header header) s =
     and_then (write_header options header) (\<lambda>out. Inr (push (Fulfilled out) s))"
| "step options (Write_buffer buffer) s = Inr (push (Pending (write_buffer options buffer)) s)"
| "step options Write_end s = Inr (push (Fulfilled (write_end options)) s)"
| "step options (Worker_completes n) s =
     Inr (if n < length (m_output_queue s)
          then s\<lparr>m_output_queue := (m_output_queue s)[n := fulfil (m_output_queue s ! n)]\<rparr>
          else s)"
| "step options Drain s = Inr (pop_next_ready_or_wait s)"

text \<open>A schedule runs event by event and ends at the first exception.\<close>

fun run_schedule :: "xml_output_options \<Rightarrow> event list \<Rightarrow> session \<Rightarrow> exception + session" where
  "run_schedule options [] s = Inr s"
| "run_schedule options (e # schedule) s =
     (case step options e s of
        Inl x \<Rightarrow> Inl x
      | Inr s' \<Rightarrow> run_schedule options schedule s')"

text \<open>
  The controller's calls within a schedule, the string each call hands to the queue (or
  the exception it throws), and the output a session of one header string, the buffers in
  order and one footer is expected to deliver.
\<close>

fun is_call :: "event \<Rightarrow> bool" where
  "is_call (Worker_completes n) = False"
| "is_call Drain = False"
| "is_call _ = True"

definition block_string :: "xml_output_options \<Rightarrow> Buffer \<Rightarrow> token list" where
  "block_string options buffer = fst (call_operator (new_XMLOutputBlock buffer options))"

definition expected_output :: "token list \<Rightarrow> xml_output_options \<Rightarrow> Buffer list \<Rightarrow> token list list" where
  "expected_output header_string options buffers =
     header_string # map (block_string options) buffers @ [write_end options]"

fun result_of :: "pending_result \<Rightarrow> token list" where
  "result_of (Pending block) = fst (call_operator block)"
| "result_of (Fulfilled out) = out"

fun call_result :: "xml_output_options \<Rightarrow> event \<Rightarrow> exception + token list" where
  "call_result options (Write_header header) = write_header options header"
| "call_result options (Write_buffer buffer) = Inr (block_string options buffer)"
| "call_result options Write_end = Inr (write_end options)"
| "call_result options _ = Inr []"

section \<open>What a function appends\<close>

text \<open>
  The text a function of the block appends is read off by running it on a block with an
  empty output string.
\<close>

definition blank :: "operation \<Rightarrow> xml_output_options \<Rightarrow> XMLOutputBlock" where
  "blank op options = \<lparr>m_input_buffer = [], m_out = [], m_last_op = op, m_options = options\<rparr>"

definition meta_text :: "'a OSMObject_scheme \<Rightarrow> xml_output_options \<Rightarrow> token list" where
  "meta_text object options = m_out (write_meta object (blank op_none options))"

definition indent :: "xml_output_options \<Rightarrow> token list" where
  "indent options = m_out (write_prefix (blank op_none options))"

definition tags_text :: "TagList \<Rightarrow> nat \<Rightarrow> xml_output_options \<Rightarrow> token list" where
  "tags_text ts spaces options = m_out (write_tags ts spaces (blank op_none options))"

definition nds_text :: "64 word list \<Rightarrow> xml_output_options \<Rightarrow> token list" where
  "nds_text refs options = m_out (write_nds refs (blank op_none options))"

definition members_text :: "RelationMember list \<Rightarrow> xml_output_options \<Rightarrow> token list" where
  "members_text ms options = m_out (write_members ms (blank op_none options))"

definition comments_text :: "ChangesetComment list \<Rightarrow> xml_output_options \<Rightarrow> token list" where
  "comments_text cs options = m_out (write_comments cs (blank op_none options))"

fun item_operation :: "item \<Rightarrow> operation option" where
  "item_operation (INode n) = Some (object_operation n)"
| "item_operation (IWay w) = Some (object_operation w)"
| "item_operation (IRelation r) = Some (object_operation r)"
| "item_operation (IChangeset c) = None"

definition wrap_step :: "item \<Rightarrow> XMLOutputBlock \<Rightarrow> XMLOutputBlock" where
  "wrap_step i b =
     (case item_operation i of
        Some op \<Rightarrow> if use_change_ops (m_options b) then open_close_op_tag op b else b
      | None \<Rightarrow> b)"

definition element :: "item \<Rightarrow> xml_output_options \<Rightarrow> token list" where
  "element i options =
     m_out (apply_item i (blank (case item_operation i of Some op \<Rightarrow> op | None \<Rightarrow> op_none) options))"

section \<open>Shapes of an element\<close>

text \<open>
  A tag ends at the literal \<^verbatim>\<open>>\<close> or \<^verbatim>\<open>/>\<close> followed by a newline. An element is
  self-closed when, after its indentation, it is the opening literal, attributes holding no
  tag end, and the self-closing tag end, and the closing literal occurs nowhere. It is an
  open/close pair when the opening tag ends with \<^verbatim>\<open>>\<close>, children follow, and the
  closing literal comes last and only there.
\<close>

definition ends_tag :: "token \<Rightarrow> bool" where
  "ends_tag t = (t = Lit ''>\<newline>'' \<or> t = Lit ''/>\<newline>'')"

definition self_closed :: "token \<Rightarrow> token \<Rightarrow> token list \<Rightarrow> bool" where
  "self_closed opening closing ts =
     (case dropWhile (\<lambda>t. t = Lit '' '') ts of
        [] \<Rightarrow> False
      | t # rest \<Rightarrow>
          t = opening \<and> rest \<noteq> [] \<and> last rest = Lit ''/>\<newline>'' \<and>
          \<not> list_ex ends_tag (butlast rest) \<and> closing \<notin> set ts)"

definition open_close_pair :: "token \<Rightarrow> token \<Rightarrow> token list \<Rightarrow> bool" where
  "open_close_pair opening closing ts =
     (case dropWhile (\<lambda>t. t = Lit '' '') ts of
        [] \<Rightarrow> False
      | t # rest \<Rightarrow>
          t = opening \<and>
          (case dropWhile (\<lambda>u. \<not> ends_tag u) rest of
             [] \<Rightarrow> False
           | e # body \<Rightarrow>
               e = Lit ''>\<newline>'' \<and> body \<noteq> [] \<and> last body = closing \<and>
               closing \<notin> set (butlast body)))"

section \<open>The inferred operation as the specification words it\<close>

text \<open>
  The specification's rule: delete if not visible; else create if the version is 1 or
  absent (0); else modify.
\<close>

definition inferred_operation_spec :: "bool \<Rightarrow> 32 word \<Rightarrow> operation" where
  "inferred_operation_spec vis v =
     (if \<not> vis then op_delete else if v = 1 \<or> v = 0 then op_create else op_modify)"

section \<open>Sample inputs\<close>

definition plain_options :: xml_output_options where
  "plain_options = \<lparr>add_metadata = False, add_visible_flag = False, use_change_ops = False\<rparr>"

definition change_options :: xml_output_options where
  "change_options = \<lparr>add_metadata = True, add_visible_flag = False, use_change_ops = True\<rparr>"

definition sample_node :: "64 word \<Rightarrow> 32 word \<Rightarrow> bool \<Rightarrow> TagList \<Rightarrow> Node" where
  "sample_node i v vis ts =
     \<lparr>object_id = i, version = v, timestamp = 0, uid = 0, user = [], object_changeset = 0,
      visible = vis, tags = ts, location = None\<rparr>"

definition sample_way :: "64 word \<Rightarrow> 32 word \<Rightarrow> bool \<Rightarrow> TagList \<Rightarrow> 64 word list \<Rightarrow> Way" where
  "sample_way i v vis ts refs =
     \<lparr>object_id = i, version = v, timestamp = 0, uid = 0, user = [], object_changeset = 0,
      visible = vis, tags = ts, nodes = refs\<rparr>"

definition sample_relation ::
  "64 word \<Rightarrow> 32 word \<Rightarrow> bool \<Rightarrow> TagList \<Rightarrow> RelationMember list \<Rightarrow> Relation" where
  "sample_relation i v vis ts ms =
     \<lparr>object_id = i, version = v, timestamp = 0, uid = 0, user = [], object_changeset = 0,
      visible = vis, tags = ts, members = ms\<rparr>"

definition sample_file :: File where
  "sample_file =
     \<lparr>is_true = (\<lambda>name. name = ''xml_change_format'' \<or> name = ''force_visible_flag''),
      is_not_false = (\<lambda>name. True),
      has_multiple_object_versions = True\<rparr>"

definition sample_comment :: ChangesetComment where
  "sample_comment = \<lparr>comment_uid = 5, comment_user = ''u'', comment_date = 1500, comment_text = ''hi''\<rparr>"

definition sample_changeset :: "TagList \<Rightarrow> 32 word \<Rightarrow> ChangesetComment list \<Rightarrow> Changeset" where
  "sample_changeset ts k cs =
     \<lparr>cs_id = 9, created_at = 1000, closed_at = 2000, cs_uid = 5, cs_user = ''u'',
      bounds = Some \<lparr>bottom_left = \<lparr>lat_without_check = 0, lon_without_check = 0\<rparr>,
                     top_right = \<lparr>lat_without_check = 1, lon_without_check = 1\<rparr>\<rparr>,
      num_changes = 3, num_comments = k, cs_tags = ts, discussion = cs\<rparr>"

definition sample_header :: Header where
  "sample_header =
     \<lparr>header_get = (\<lambda>name. if name = ''xml_josm_upload'' then ''true''
                           else if name = ''generator'' then ''test'' else []),
      boxes = []\<rparr>"

definition sample_box :: Box where
  "sample_box =
     \<lparr>bottom_left = \<lparr>lat_without_check = - 10, lon_without_check = - 20\<rparr>,
      top_right = \<lparr>lat_without_check = 10, lon_without_check = 20\<rparr>\<rparr>"

text \<open>A box whose top right corner has the longitude 500.\<close>

definition sample_invalid_box :: Box where
  "sample_invalid_box =
     \<lparr>bottom_left = \<lparr>lat_without_check = 0, lon_without_check = 0\<rparr>,
      top_right = \<lparr>lat_without_check = 0, lon_without_check = 500\<rparr>\<rparr>"

definition sample_buffer :: Buffer where
  "sample_buffer =
     [INode (sample_node 1 1 True []), IWay (sample_way 2 1 True [] []),
      INode (sample_node 3 2 True []), IRelation (sample_relation 4 3 False [] []),
      INode (sample_node 5 1 False [])]"

text \<open>
  A schedule in which the second block is completed before the first, and the drain step
  is tried while the head of the queue is still pending.
\<close>

definition sample_schedule :: "event list" where
  "sample_schedule =
     [Write_header (sample_header\<lparr>boxes := [sample_box]\<rparr>), Write_buffer sample_buffer, Drain, Drain,
      Write_buffer [INode (sample_node 1 0 True [])], Worker_completes 1, Drain,
      Write_end, Worker_completes 0, Drain, Drain, Drain]"

section \<open>Derived notions for the claims\<close>

text \<open>
  The attributes of a changeset's opening tag: what \<open>changeset\<close> appends between the
  opening literal and the end of the tag. A wrapper tag is one of the six literals of
  \<open>open_close_op_tag\<close>. What a function appends to a block is the output beyond what the
  block held.
\<close>

definition changeset_attributes :: "Changeset \<Rightarrow> token list" where
  "changeset_attributes c =
     takeWhile (\<lambda>t. \<not> ends_tag t) (tl (m_out (changeset c (blank op_none plain_options))))"

definition wrapper_tag :: "token \<Rightarrow> bool" where
  "wrapper_tag t =
     (t \<in> set (concat (map open_op_text [op_create, op_modify, op_delete]) @
               concat (map close_op_text [op_create, op_modify, op_delete])))"

definition appended :: "(XMLOutputBlock \<Rightarrow> XMLOutputBlock) \<Rightarrow> XMLOutputBlock \<Rightarrow> token list" where
  "appended f b = drop (length (m_out b)) (m_out (f b))"

section \<open>Runs of equal operations\<close>

text \<open>
  The specification's grouping. The operation of a run is the operation of its first
  entity (none for a changeset, which \<open>open_close_op_tag\<close> is never called for). A run
  goes on while the entities are changesets or have that operation, so the runs are the
  maximal contiguous runs of equal operations. The grouped output is, for each run, the
  opening wrapper tag, the elements of the run and the closing wrapper tag.
\<close>

definition run_operation :: "item \<Rightarrow> operation" where
  "run_operation i = (case item_operation i of Some op \<Rightarrow> op | None \<Rightarrow> op_none)"

definition same_run :: "operation \<Rightarrow> item \<Rightarrow> bool" where
  "same_run op i = (item_operation i = None \<or> item_operation i = Some op)"

function runs :: "item list \<Rightarrow> (operation \<times> item list) list" where
  "runs [] = []"
| "runs (i # rest) =
     (run_operation i, i # takeWhile (same_run (run_operation i)) rest) #
     runs (dropWhile (same_run (run_operation i)) rest)"
  by pat_completeness auto
termination
  by (relation "measure length") (simp_all add: length_dropWhile_le less_Suc_eq_le)

definition grouped :: "xml_output_options \<Rightarrow> item list \<Rightarrow> token list" where
  "grouped options buffer =
     concat (map (\<lambda>(op, run).
       open_op_text op @ concat (map (\<lambda>i. element i options) run) @ close_op_text op)
       (runs buffer))"

definition wrapper_open :: "token \<Rightarrow> bool" where
  "wrapper_open t = (t \<in> set (concat (map open_op_text [op_create, op_modify, op_delete])))"

definition wrapper_close :: "token \<Rightarrow> bool" where
  "wrapper_close t = (t \<in> set (concat (map close_op_text [op_create, op_modify, op_delete])))"

section \<open>Every function only appends\<close>

lemma emit_sel [simp]:
  "m_out (emit ts b) = m_out b @ ts"
  "m_last_op (emit ts b) = m_last_op b"
  "m_options (emit ts b) = m_options b"
  "m_input_buffer (emit ts b) = m_input_buffer b"
  by (simp_all add: emit_def)

lemma emit_emit [simp]: "emit ts (emit us b) = emit (us @ ts) b"
  by (simp add: emit_def)

lemma emit_Nil [simp]: "emit [] b = b"
  by (simp add: emit_def)

lemma if_emit [simp]:
  "(if c then emit ts b else emit us b) = emit (if c then ts else us) b"
  "(if c then emit ts b else b) = emit (if c then ts else []) b"
  "(if c then b else emit us b) = emit (if c then [] else us) b"
  by simp_all

lemma case_emit [simp]:
  "(case x of None \<Rightarrow> b | Some y \<Rightarrow> emit (f y) b) = emit (case x of None \<Rightarrow> [] | Some y \<Rightarrow> f y) b"
  by (cases x) simp_all

lemma blank_sel [simp]:
  "m_out (blank op options) = []"
  "m_last_op (blank op options) = op"
  "m_options (blank op options) = options"
  by (simp_all add: blank_def)

lemma write_spaces_eq: "write_spaces num b = emit (replicate num (Lit '' '')) b"
proof (induction num arbitrary: b)
  case 0
  show ?case by simp
next
  case (Suc num)
  show ?case by (simp add: Suc.IH replicate_append_same)
qed

lemma prefix_spaces_eq: "prefix_spaces b = (if use_change_ops (m_options b) then 4 else 2)"
  by (simp add: prefix_spaces_def)

lemma indent_eq: "indent options = replicate (if use_change_ops options then 4 else 2) (Lit '' '')"
  by (simp add: indent_def write_prefix_def write_spaces_eq prefix_spaces_eq)

lemma write_prefix_eq: "write_prefix b = emit (indent (m_options b)) b"
  by (simp add: write_prefix_def write_spaces_eq indent_eq prefix_spaces_eq)

lemma output_formatted_eq: "output_formatted pre n post b = emit [Lit pre, Dec n, Lit post] b"
  by (simp add: output_formatted_def)

lemma write_meta_eq: "write_meta object b = emit (meta_text object (m_options b)) b"
  by (simp add: write_meta_def meta_text_def output_formatted_eq Let_def)

lemma write_tags_emit:
  "write_tags ts n b =
     emit (concat (map (\<lambda>tag. replicate n (Lit '' '') @
             [Lit ''  <tag k=\"'', Xml (fst tag), Lit ''\" v=\"'', Xml (snd tag), Lit ''\"/>\<newline>'']) ts)) b"
  by (induction ts arbitrary: b) (simp_all add: write_spaces_eq)

lemma tags_text_eq:
  "tags_text ts n options =
     concat (map (\<lambda>tag. replicate n (Lit '' '') @
       [Lit ''  <tag k=\"'', Xml (fst tag), Lit ''\" v=\"'', Xml (snd tag), Lit ''\"/>\<newline>'']) ts)"
  by (simp add: tags_text_def write_tags_emit)

lemma write_tags_eq: "write_tags ts n b = emit (tags_text ts n (m_options b)) b"
  by (simp add: tags_text_eq write_tags_emit)

lemma write_nds_emit:
  "write_nds refs b =
     emit (concat (map (\<lambda>ref. indent (m_options b) @
             [Lit ''  <nd ref=\"'', Dec (sint ref), Lit ''\"/>\<newline>'']) refs)) b"
  by (induction refs arbitrary: b) (simp_all add: write_prefix_eq output_formatted_eq)

lemma nds_text_eq:
  "nds_text refs options =
     concat (map (\<lambda>ref. indent options @
       [Lit ''  <nd ref=\"'', Dec (sint ref), Lit ''\"/>\<newline>'']) refs)"
  by (simp add: nds_text_def write_nds_emit)

lemma write_nds_eq: "write_nds refs b = emit (nds_text refs (m_options b)) b"
  by (simp add: nds_text_eq write_nds_emit)

lemma write_members_emit:
  "write_members ms b =
     emit (concat (map (\<lambda>member. indent (m_options b) @
             [Lit ''  <member type=\"'', TypeName (member_type member),
              Lit ''\" ref=\"'', Dec (sint (member_ref member)), Lit ''\" role=\"'',
              Xml (role member), Lit ''\"/>\<newline>'']) ms)) b"
  by (induction ms arbitrary: b) (simp_all add: write_prefix_eq output_formatted_eq)

lemma members_text_eq:
  "members_text ms options =
     concat (map (\<lambda>member. indent options @
       [Lit ''  <member type=\"'', TypeName (member_type member),
        Lit ''\" ref=\"'', Dec (sint (member_ref member)), Lit ''\" role=\"'',
        Xml (role member), Lit ''\"/>\<newline>'']) ms)"
  by (simp add: members_text_def write_members_emit)

lemma write_members_eq: "write_members ms b = emit (members_text ms (m_options b)) b"
  by (simp add: members_text_eq write_members_emit)

lemma write_comments_emit:
  "write_comments cs b =
     emit (concat (map (\<lambda>comment.
             [Lit ''   <comment uid=\"'', Dec (sint (comment_uid comment)), Lit ''\" user=\"'',
              Xml (comment_user comment), Lit ''\" date=\"'', Iso (comment_date comment),
              Lit ''\">\<newline>'', Lit ''    <text>'', Xml (comment_text comment),
              Lit ''</text>\<newline>   </comment>\<newline>'']) cs)) b"
  by (induction cs arbitrary: b) (simp_all add: output_formatted_eq)

lemma comments_text_eq:
  "comments_text cs options =
     concat (map (\<lambda>comment.
       [Lit ''   <comment uid=\"'', Dec (sint (comment_uid comment)), Lit ''\" user=\"'',
        Xml (comment_user comment), Lit ''\" date=\"'', Iso (comment_date comment),
        Lit ''\">\<newline>'', Lit ''    <text>'', Xml (comment_text comment),
        Lit ''</text>\<newline>   </comment>\<newline>'']) cs)"
  by (simp add: comments_text_def write_comments_emit)

lemma write_comments_eq: "write_comments cs b = emit (comments_text cs (m_options b)) b"
  by (simp add: comments_text_eq write_comments_emit)

lemma open_close_sel [simp]:
  "m_options (open_close_op_tag op b) = m_options b"
  "m_last_op (open_close_op_tag op b) = op"
  "m_input_buffer (open_close_op_tag op b) = m_input_buffer b"
  by (simp_all add: open_close_op_tag_def)

lemma open_close_same [simp]: "m_last_op b = op \<Longrightarrow> open_close_op_tag op b = b"
  by (simp add: open_close_op_tag_def)

lemma node_eq: "node n b = emit (element (INode n) (m_options b)) (wrap_step (INode n) b)"
  by (cases "location n") (simp_all add: node_def element_def wrap_step_def Let_def write_prefix_eq write_meta_eq
      write_tags_eq prefix_spaces_eq)

lemma way_eq: "way w b = emit (element (IWay w) (m_options b)) (wrap_step (IWay w) b)"
  by (simp add: way_def element_def wrap_step_def Let_def write_prefix_eq write_meta_eq
      write_tags_eq write_nds_eq prefix_spaces_eq)

lemma relation_eq: "relation r b = emit (element (IRelation r) (m_options b)) (wrap_step (IRelation r) b)"
  by (simp add: relation_def element_def wrap_step_def Let_def write_prefix_eq write_meta_eq
      write_tags_eq write_members_eq prefix_spaces_eq)

lemma changeset_eq: "changeset c b = emit (element (IChangeset c) (m_options b)) b"
  by (cases "bounds c") (simp_all add: changeset_def element_def Let_def write_tags_eq write_discussion_def
      write_comments_eq output_formatted_eq output_formatted_7f_def)

lemma apply_item_eq: "apply_item i b = emit (element i (m_options b)) (wrap_step i b)"
  by (cases i) (simp_all add: node_eq way_eq relation_eq changeset_eq, simp add: wrap_step_def)

lemma self_closedI:
  assumes "opening \<noteq> Lit '' ''" "\<not> list_ex ends_tag attrs"
    "closing \<notin> set attrs" "closing \<noteq> opening" "closing \<noteq> Lit ''/>\<newline>''" "closing \<noteq> Lit '' ''"
  shows "self_closed opening closing (replicate k (Lit '' '') @ opening # attrs @ [Lit ''/>\<newline>''])"
proof -
  have "dropWhile (\<lambda>t. t = Lit '' '') (replicate k (Lit '' '') @ opening # attrs @ [Lit ''/>\<newline>''])
        = opening # attrs @ [Lit ''/>\<newline>'']"
    using assms(1) by (simp add: dropWhile_append)
  then show ?thesis
    using assms by (simp add: self_closed_def)
qed

lemma open_close_pairI:
  assumes "opening \<noteq> Lit '' ''" "\<not> list_ex ends_tag attrs" "closing \<notin> set children"
  shows "open_close_pair opening closing
           (replicate k (Lit '' '') @ opening # attrs @ Lit ''>\<newline>'' # children @ [closing])"
proof -
  have 1: "dropWhile (\<lambda>t. t = Lit '' '')
             (replicate k (Lit '' '') @ opening # attrs @ Lit ''>\<newline>'' # children @ [closing])
        = opening # attrs @ Lit ''>\<newline>'' # children @ [closing]"
    using assms(1) by (simp add: dropWhile_append)
  have 2: "dropWhile (\<lambda>u. \<not> ends_tag u) (attrs @ Lit ''>\<newline>'' # children @ [closing])
        = Lit ''>\<newline>'' # children @ [closing]"
    using assms(2) by (simp add: dropWhile_append list_ex_iff ends_tag_def)
  show ?thesis
    using assms(3) by (simp add: open_close_pair_def 1 2 butlast_append)
qed

lemma meta_text_eq:
  "meta_text object options =
     [Lit '' id=\"'', Dec (sint (object_id object)), Lit ''\"''] @
     (if add_metadata options then
        (if version object \<noteq> 0 then [Lit '' version=\"'', Dec (sint (version object)), Lit ''\"''] else []) @
        (if timestamp object \<noteq> 0 then [Lit '' timestamp=\"'', Iso (timestamp object), Lit ''\"''] else []) @
        (if \<not> user_is_anonymous object
         then [Lit '' uid=\"'', Dec (sint (uid object)), Lit ''\" user=\"'', Xml (user object), Lit ''\"'']
         else []) @
        (if object_changeset object \<noteq> 0
         then [Lit '' changeset=\"'', Dec (sint (object_changeset object)), Lit ''\"''] else []) @
        (if add_visible_flag options
         then (if visible object then [Lit '' visible=\"true\"''] else [Lit '' visible=\"false\"''])
         else [])
      else [])"
  by (simp add: meta_text_def write_meta_def output_formatted_eq Let_def)

lemma count_list_replicate: "count_list (replicate k y) x = (if x = y then k else 0)"
  by (induction k) auto

lemma count_list_concat_map:
  "(\<And>y. count_list (f y) x = c) \<Longrightarrow> count_list (concat (map f ys)) x = c * length ys"
  by (induction ys) simp_all

lemma count_list_0: "x \<notin> set xs \<Longrightarrow> count_list xs x = 0"
  by (induction xs) auto

section \<open>The text of each element\<close>

lemma element_node:
  "element (INode n) options =
     indent options @ Lit ''<node'' #
     (meta_text n options @
      (case location n of
         None \<Rightarrow> []
       | Some l \<Rightarrow> [Lit '' lat=\"'', D2s (lat_without_check l), Lit ''\" lon=\"'',
                   D2s (lon_without_check l), Lit ''\"''])) @
     (if tags n = [] then [Lit ''/>\<newline>'']
      else Lit ''>\<newline>'' #
        (tags_text (tags n) (if use_change_ops options then 4 else 2) options @ indent options) @
        [Lit ''</node>\<newline>''])"
  by (cases "location n")
    (simp_all add: element_def node_def Let_def write_prefix_eq write_meta_eq write_tags_eq
      prefix_spaces_eq)

lemma element_way:
  "element (IWay w) options =
     indent options @ Lit ''<way'' # meta_text w options @
     (if tags w = [] \<and> nodes w = [] then [Lit ''/>\<newline>'']
      else Lit ''>\<newline>'' #
        (nds_text (nodes w) options @
         tags_text (tags w) (if use_change_ops options then 4 else 2) options @ indent options) @
        [Lit ''</way>\<newline>''])"
  by (simp add: element_def way_def Let_def write_prefix_eq write_meta_eq write_tags_eq
      write_nds_eq prefix_spaces_eq)

lemma element_relation:
  "element (IRelation r) options =
     indent options @ Lit ''<relation'' # meta_text r options @
     (if tags r = [] \<and> members r = [] then [Lit ''/>\<newline>'']
      else Lit ''>\<newline>'' #
        (members_text (members r) options @
         tags_text (tags r) (if use_change_ops options then 4 else 2) options @ indent options) @
        [Lit ''</relation>\<newline>''])"
  by (simp add: element_def relation_def Let_def write_prefix_eq write_meta_eq write_tags_eq
      write_members_eq prefix_spaces_eq)

lemma indent_plain [simp]: "Lit (c # d # cs) \<notin> set (indent options)"
  by (simp add: indent_eq)

lemma meta_text_no_end: "\<not> list_ex ends_tag (meta_text object options)"
  by (simp add: meta_text_eq ends_tag_def)

lemma meta_text_count [simp]:
  "length s \<noteq> 1 \<Longrightarrow> s \<notin> {'' id=\"'', '' version=\"'', '' timestamp=\"'', '' uid=\"'', ''\" user=\"'',
     '' changeset=\"'', '' visible=\"true\"'', '' visible=\"false\"''}
   \<Longrightarrow> count_list (meta_text object options) (Lit s) = 0"
  by (auto simp add: meta_text_eq)

lemma tags_text_count [simp]:
  "count_list (tags_text ts n options) (Lit ''  <tag k=\"'') = length ts"
  "count_list (tags_text ts n options) (Lit ''  <nd ref=\"'') = 0"
  "count_list (tags_text ts n options) (Lit ''  <member type=\"'') = 0"
  "count_list (tags_text ts n options) (Lit ''  <discussion>\<newline>'') = 0"
  "count_list (tags_text ts n options) (Lit ''  </discussion>\<newline>'') = 0"
  "count_list (tags_text ts n options) (Lit ''   <comment uid=\"'') = 0"
  by (simp_all add: tags_text_eq count_list_concat_map [where c = 1]
      count_list_concat_map [where c = 0] count_list_replicate)

lemma tags_text_plain [simp]:
  "Lit ''</node>\<newline>'' \<notin> set (tags_text ts n options)"
  "Lit ''</way>\<newline>'' \<notin> set (tags_text ts n options)"
  "Lit ''</relation>\<newline>'' \<notin> set (tags_text ts n options)"
  "Lit '' </changeset>\<newline>'' \<notin> set (tags_text ts n options)"
  by (auto simp add: tags_text_eq)

lemma nds_text_count [simp]:
  "count_list (nds_text refs options) (Lit ''  <tag k=\"'') = 0"
  "count_list (nds_text refs options) (Lit ''  <nd ref=\"'') = length refs"
  by (simp_all add: nds_text_eq count_list_concat_map [where c = 1]
      count_list_concat_map [where c = 0] count_list_0)

lemma nds_text_plain [simp]: "Lit ''</way>\<newline>'' \<notin> set (nds_text refs options)"
  by (auto simp add: nds_text_eq)

lemma members_text_count [simp]:
  "count_list (members_text ms options) (Lit ''  <tag k=\"'') = 0"
  "count_list (members_text ms options) (Lit ''  <member type=\"'') = length ms"
  by (simp_all add: members_text_eq count_list_concat_map [where c = 1]
      count_list_concat_map [where c = 0] count_list_0)

lemma members_text_plain [simp]: "Lit ''</relation>\<newline>'' \<notin> set (members_text ms options)"
  by (auto simp add: members_text_eq)

lemma self_closed_node:
  assumes "tags n = []"
  shows "self_closed (Lit ''<node'') (Lit ''</node>\<newline>'') (element (INode n) options)"
proof -
  define attrs where "attrs = meta_text n options @
    (case location n of None \<Rightarrow> []
     | Some l \<Rightarrow> [Lit '' lat=\"'', D2s (lat_without_check l), Lit ''\" lon=\"'',
                 D2s (lon_without_check l), Lit ''\"''])"
  have eq: "element (INode n) options =
      replicate (if use_change_ops options then 4 else 2) (Lit '' '') @ Lit ''<node'' #
      attrs @ [Lit ''/>\<newline>'']"
    using assms by (simp add: element_node indent_eq attrs_def)
  have "\<not> list_ex ends_tag attrs" "Lit ''</node>\<newline>'' \<notin> set attrs"
    by (cases "location n"; simp add: attrs_def meta_text_no_end count_list_0_iff [symmetric]
        ends_tag_def)+
  then show ?thesis
    unfolding eq by (intro self_closedI) simp_all
qed

lemma open_close_node:
  assumes "tags n \<noteq> []"
  shows "open_close_pair (Lit ''<node'') (Lit ''</node>\<newline>'') (element (INode n) options)"
proof -
  define attrs where "attrs = meta_text n options @
    (case location n of None \<Rightarrow> []
     | Some l \<Rightarrow> [Lit '' lat=\"'', D2s (lat_without_check l), Lit ''\" lon=\"'',
                 D2s (lon_without_check l), Lit ''\"''])"
  define children where
    "children = tags_text (tags n) (if use_change_ops options then 4 else 2) options @ indent options"
  have eq: "element (INode n) options =
      replicate (if use_change_ops options then 4 else 2) (Lit '' '') @ Lit ''<node'' #
      attrs @ Lit ''>\<newline>'' # children @ [Lit ''</node>\<newline>'']"
    using assms by (simp add: element_node indent_eq attrs_def children_def)
  have "\<not> list_ex ends_tag attrs"
    by (cases "location n"; simp add: attrs_def meta_text_no_end ends_tag_def)
  moreover have "Lit ''</node>\<newline>'' \<notin> set children"
    by (simp add: children_def)
  ultimately show ?thesis
    unfolding eq by (intro open_close_pairI) simp_all
qed

lemma self_closed_way:
  assumes "tags w = []" "nodes w = []"
  shows "self_closed (Lit ''<way'') (Lit ''</way>\<newline>'') (element (IWay w) options)"
proof -
  have eq: "element (IWay w) options =
      replicate (if use_change_ops options then 4 else 2) (Lit '' '') @ Lit ''<way'' #
      meta_text w options @ [Lit ''/>\<newline>'']"
    using assms by (simp add: element_way indent_eq)
  have "Lit ''</way>\<newline>'' \<notin> set (meta_text w options)"
    by (simp add: count_list_0_iff [symmetric])
  then show ?thesis
    unfolding eq by (intro self_closedI) (simp_all add: meta_text_no_end)
qed

lemma open_close_way:
  assumes "tags w \<noteq> [] \<or> nodes w \<noteq> []"
  shows "open_close_pair (Lit ''<way'') (Lit ''</way>\<newline>'') (element (IWay w) options)"
proof -
  define children where
    "children = nds_text (nodes w) options @
       tags_text (tags w) (if use_change_ops options then 4 else 2) options @ indent options"
  have eq: "element (IWay w) options =
      replicate (if use_change_ops options then 4 else 2) (Lit '' '') @ Lit ''<way'' #
      meta_text w options @ Lit ''>\<newline>'' # children @ [Lit ''</way>\<newline>'']"
    using assms by (auto simp add: element_way indent_eq children_def)
  have "Lit ''</way>\<newline>'' \<notin> set children"
    by (simp add: children_def)
  then show ?thesis
    unfolding eq by (intro open_close_pairI) (simp_all add: meta_text_no_end)
qed

lemma self_closed_relation:
  assumes "tags r = []" "members r = []"
  shows "self_closed (Lit ''<relation'') (Lit ''</relation>\<newline>'') (element (IRelation r) options)"
proof -
  have eq: "element (IRelation r) options =
      replicate (if use_change_ops options then 4 else 2) (Lit '' '') @ Lit ''<relation'' #
      meta_text r options @ [Lit ''/>\<newline>'']"
    using assms by (simp add: element_relation indent_eq)
  have "Lit ''</relation>\<newline>'' \<notin> set (meta_text r options)"
    by (simp add: count_list_0_iff [symmetric])
  then show ?thesis
    unfolding eq by (intro self_closedI) (simp_all add: meta_text_no_end)
qed

lemma open_close_relation:
  assumes "tags r \<noteq> [] \<or> members r \<noteq> []"
  shows "open_close_pair (Lit ''<relation'') (Lit ''</relation>\<newline>'') (element (IRelation r) options)"
proof -
  define children where
    "children = members_text (members r) options @
       tags_text (tags r) (if use_change_ops options then 4 else 2) options @ indent options"
  have eq: "element (IRelation r) options =
      replicate (if use_change_ops options then 4 else 2) (Lit '' '') @ Lit ''<relation'' #
      meta_text r options @ Lit ''>\<newline>'' # children @ [Lit ''</relation>\<newline>'']"
    using assms by (auto simp add: element_relation indent_eq children_def)
  have "Lit ''</relation>\<newline>'' \<notin> set children"
    by (simp add: children_def)
  then show ?thesis
    unfolding eq by (intro open_close_pairI) (simp_all add: meta_text_no_end)
qed

lemma children_count:
  "count_list (element (INode n) options) (Lit ''  <tag k=\"'') = length (tags n)"
  "count_list (element (IWay w) options) (Lit ''  <tag k=\"'') = length (tags w)"
  "count_list (element (IWay w) options) (Lit ''  <nd ref=\"'') = length (nodes w)"
  "count_list (element (IRelation r) options) (Lit ''  <tag k=\"'') = length (tags r)"
  "count_list (element (IRelation r) options) (Lit ''  <member type=\"'') = length (members r)"
      apply (cases "location n"; simp add: element_node count_list_0)
     apply (simp_all add: element_way element_relation count_list_0)
  done

lemma changeset_emit:
  "changeset c b =
     emit (Lit '' <changeset'' #
       ([Lit '' id=\"'', Dec (sint (cs_id c)), Lit ''\"''] @
        (if created_at c \<noteq> 0 then [Lit '' created_at=\"'', Iso (created_at c), Lit ''\"''] else []) @
        (if closed_at c \<noteq> 0
         then [Lit '' closed_at=\"'', Iso (closed_at c), Lit ''\" open=\"false\"'']
         else [Lit '' open=\"true\"'']) @
        (if \<not> cs_user_is_anonymous c
         then [Lit '' user=\"'', Xml (cs_user c), Lit ''\" uid=\"'', Dec (sint (cs_uid c)), Lit ''\"'']
         else []) @
        (case bounds c of
           None \<Rightarrow> []
         | Some box \<Rightarrow>
             [Lit '' min_lat=\"'', Fixed7 (lat_without_check (bottom_left box)), Lit ''\"'',
              Lit '' min_lon=\"'', Fixed7 (lon_without_check (bottom_left box)), Lit ''\"'',
              Lit '' max_lat=\"'', Fixed7 (lat_without_check (top_right box)), Lit ''\"'',
              Lit '' max_lon=\"'', Fixed7 (lon_without_check (top_right box)), Lit ''\"'']) @
        [Lit '' num_changes=\"'', Dec (sint (num_changes c)), Lit ''\"'',
         Lit '' comments_count=\"'', Dec (sint (num_comments c)), Lit ''\"'']) @
       (if cs_tags c = [] \<and> num_comments c = 0 then [Lit ''/>\<newline>'']
        else Lit ''>\<newline>'' #
          (tags_text (cs_tags c) 0 (m_options b) @
           (if 0 < num_comments c
            then Lit ''  <discussion>\<newline>'' # comments_text (discussion c) (m_options b) @
                 [Lit ''  </discussion>\<newline>'']
            else [])) @
          [Lit '' </changeset>\<newline>''])) b"
  by (cases "bounds c")
    (simp_all add: changeset_def Let_def write_tags_eq write_discussion_def write_comments_eq
      output_formatted_eq output_formatted_7f_def)

lemma takeWhile_attrs:
  assumes "\<not> list_ex ends_tag attrs" "ends_tag e"
  shows "takeWhile (\<lambda>t. \<not> ends_tag t) (attrs @ e # rest) = attrs"
  using assms by (simp add: takeWhile_tail list_ex_iff)

lemma changeset_attributes_eq:
  "changeset_attributes c =
     [Lit '' id=\"'', Dec (sint (cs_id c)), Lit ''\"''] @
     (if created_at c \<noteq> 0 then [Lit '' created_at=\"'', Iso (created_at c), Lit ''\"''] else []) @
     (if closed_at c \<noteq> 0
      then [Lit '' closed_at=\"'', Iso (closed_at c), Lit ''\" open=\"false\"'']
      else [Lit '' open=\"true\"'']) @
     (if \<not> cs_user_is_anonymous c
      then [Lit '' user=\"'', Xml (cs_user c), Lit ''\" uid=\"'', Dec (sint (cs_uid c)), Lit ''\"'']
      else []) @
     (case bounds c of
        None \<Rightarrow> []
      | Some box \<Rightarrow>
          [Lit '' min_lat=\"'', Fixed7 (lat_without_check (bottom_left box)), Lit ''\"'',
           Lit '' min_lon=\"'', Fixed7 (lon_without_check (bottom_left box)), Lit ''\"'',
           Lit '' max_lat=\"'', Fixed7 (lat_without_check (top_right box)), Lit ''\"'',
           Lit '' max_lon=\"'', Fixed7 (lon_without_check (top_right box)), Lit ''\"'']) @
     [Lit '' num_changes=\"'', Dec (sint (num_changes c)), Lit ''\"'',
      Lit '' comments_count=\"'', Dec (sint (num_comments c)), Lit ''\"'']"
  (is "_ = ?attrs")
proof -
  define e where "e = (if cs_tags c = [] \<and> num_comments c = 0 then Lit ''/>\<newline>'' else Lit ''>\<newline>'')"
  define rest where "rest =
    (if cs_tags c = [] \<and> num_comments c = 0 then []
     else (tags_text (cs_tags c) 0 plain_options @
           (if 0 < num_comments c
            then Lit ''  <discussion>\<newline>'' # comments_text (discussion c) plain_options @
                 [Lit ''  </discussion>\<newline>'']
            else [])) @
          [Lit '' </changeset>\<newline>''])"
  have m: "m_out (changeset c (blank op_none plain_options)) = Lit '' <changeset'' # ?attrs @ e # rest"
    by (simp add: changeset_emit e_def rest_def)
  have 1: "\<not> list_ex ends_tag ?attrs"
    by (cases "bounds c") (simp_all add: ends_tag_def)
  have 2: "ends_tag e"
    by (simp add: e_def ends_tag_def)
  have "changeset_attributes c = takeWhile (\<lambda>t. \<not> ends_tag t) (?attrs @ e # rest)"
    by (simp only: changeset_attributes_def m list.sel)
  also have "\<dots> = ?attrs"
    using 1 2 by (rule takeWhile_attrs)
  finally show ?thesis .
qed

lemma element_changeset:
  "element (IChangeset c) options =
     Lit '' <changeset'' # changeset_attributes c @
     (if cs_tags c = [] \<and> num_comments c = 0 then [Lit ''/>\<newline>'']
      else Lit ''>\<newline>'' #
        (tags_text (cs_tags c) 0 options @
         (if 0 < num_comments c
          then Lit ''  <discussion>\<newline>'' # comments_text (discussion c) options @
               [Lit ''  </discussion>\<newline>'']
          else [])) @
        [Lit '' </changeset>\<newline>''])"
  by (simp add: element_def changeset_emit changeset_attributes_eq)

lemma changeset_attributes_no_end: "\<not> list_ex ends_tag (changeset_attributes c)"
  by (cases "bounds c") (simp_all add: changeset_attributes_eq ends_tag_def)

lemma changeset_attributes_lits:
  "Lit s \<in> set (changeset_attributes c) \<Longrightarrow>
   s \<in> {'' id=\"'', ''\"'', '' created_at=\"'', '' closed_at=\"'', ''\" open=\"false\"'',
        '' open=\"true\"'', '' user=\"'', ''\" uid=\"'', '' min_lat=\"'', '' min_lon=\"'',
        '' max_lat=\"'', '' max_lon=\"'', '' num_changes=\"'', '' comments_count=\"''}"
  by (cases "bounds c") (auto simp add: changeset_attributes_eq split: if_splits)

lemma wrapper_tag_iff:
  "wrapper_tag t \<longleftrightarrow>
     t = Lit ''  <create>\<newline>'' \<or> t = Lit ''  <modify>\<newline>'' \<or> t = Lit ''  <delete>\<newline>'' \<or>
     t = Lit ''  </create>\<newline>'' \<or> t = Lit ''  </modify>\<newline>'' \<or> t = Lit ''  </delete>\<newline>''"
  by (auto simp add: wrapper_tag_def)

lemma no_wrapper_indent: "\<not> list_ex wrapper_tag (indent options)"
  by (simp add: indent_eq list_ex_iff wrapper_tag_iff)

lemma no_wrapper_meta: "\<not> list_ex wrapper_tag (meta_text object options)"
  by (simp add: meta_text_eq wrapper_tag_iff)

lemma no_wrapper_tags: "\<not> list_ex wrapper_tag (tags_text ts n options)"
  by (auto simp add: tags_text_eq list_ex_iff wrapper_tag_iff)

lemma no_wrapper_nds: "\<not> list_ex wrapper_tag (nds_text refs options)"
  by (auto simp add: nds_text_eq list_ex_iff wrapper_tag_iff indent_eq)

lemma no_wrapper_members: "\<not> list_ex wrapper_tag (members_text ms options)"
  by (auto simp add: members_text_eq list_ex_iff wrapper_tag_iff indent_eq)

lemma no_wrapper_comments: "\<not> list_ex wrapper_tag (comments_text cs options)"
  by (auto simp add: comments_text_eq list_ex_iff wrapper_tag_iff)

lemma no_wrapper_changeset_attributes: "\<not> list_ex wrapper_tag (changeset_attributes c)"
  using changeset_attributes_lits [of _ c]
  by (fastforce simp add: list_ex_iff wrapper_tag_iff)

lemmas no_wrapper = no_wrapper_indent no_wrapper_meta no_wrapper_tags no_wrapper_nds
  no_wrapper_members no_wrapper_comments no_wrapper_changeset_attributes

lemma no_wrapper_element: "\<not> list_ex wrapper_tag (element i options)"
proof (cases i)
  case (INode n)
  show ?thesis
    unfolding INode
    by (cases "location n") (simp_all add: element_node no_wrapper, simp_all add: wrapper_tag_iff)
next
  case (IWay w)
  show ?thesis
    unfolding IWay by (simp add: element_way no_wrapper) (simp add: wrapper_tag_iff)
next
  case (IRelation r)
  show ?thesis
    unfolding IRelation by (simp add: element_relation no_wrapper) (simp add: wrapper_tag_iff)
next
  case (IChangeset c)
  show ?thesis
    unfolding IChangeset by (simp add: element_changeset no_wrapper) (simp add: wrapper_tag_iff)
qed

lemma element_changeset_options: "element (IChangeset c) options = element (IChangeset c) options'"
  by (simp add: element_changeset tags_text_eq comments_text_eq)

lemma appended_emit [simp]: "appended (emit ts) b = ts"
  by (simp add: appended_def)

lemma comments_text_count [simp]:
  "count_list (comments_text cs options) (Lit ''   <comment uid=\"'') = length cs"
  "count_list (comments_text cs options) (Lit ''  <discussion>\<newline>'') = 0"
  "count_list (comments_text cs options) (Lit ''  </discussion>\<newline>'') = 0"
  "count_list (comments_text cs options) (Lit '' </changeset>\<newline>'') = 0"
  by (simp_all add: comments_text_eq count_list_concat_map [where c = 1]
      count_list_concat_map [where c = 0])

lemma changeset_attributes_count [simp]:
  "s \<in> {'' </changeset>\<newline>'', ''  <discussion>\<newline>'', ''  </discussion>\<newline>'', ''   <comment uid=\"''}
   \<Longrightarrow> count_list (changeset_attributes c) (Lit s) = 0"
  by (rule count_list_0) (use changeset_attributes_lits [of s c] in auto)

lemma and_then_simps [simp]:
  "and_then (Inl e) f = Inl e"
  "and_then (Inr x) f = f x"
  by (simp_all add: and_then_def)

lemma header_bounds_valid:
  "list_all valid_box bs \<Longrightarrow>
   \<exists>ts. header_bounds bs = Inr ts \<and> Lit '' upload=\"'' \<notin> set ts"
proof (induction bs)
  case Nil
  show ?case by simp
next
  case (Cons box rest)
  then obtain ts where "header_bounds rest = Inr ts" "Lit '' upload=\"'' \<notin> set ts"
    by auto
  moreover have "valid_location (bottom_left box)" "valid_location (top_right box)"
    using Cons.prems by (simp_all add: valid_box_def)
  ultimately show ?case
    by (simp add: lon_def lat_def append_printf_formatted_string_def)
qed

lemma header_bounds_invalid:
  "\<not> list_all valid_box bs \<Longrightarrow> header_bounds bs = Inl invalid_location"
proof (induction bs)
  case Nil
  then show ?case by simp
next
  case (Cons box rest)
  show ?case
  proof (cases "valid_box box")
    case True
    then have "header_bounds rest = Inl invalid_location"
      using Cons by simp
    with True show ?thesis
      by (simp add: lon_def lat_def valid_box_def)
  next
    case False
    then show ?thesis
      by (auto simp add: lon_def lat_def valid_box_def)
  qed
qed

lemma apply_items_options [simp]: "m_options (apply_items xs b) = m_options b"
  by (induction xs arbitrary: b) (simp_all add: apply_item_eq wrap_step_def split: option.split)

lemma object_operation_not_none [simp]: "object_operation object \<noteq> op_none"
  by (simp add: object_operation_def)

lemma item_operation_not_none [simp]: "item_operation i \<noteq> Some op_none"
  by (cases i) simp_all

lemma open_close_out:
  "m_out (open_close_op_tag op b) =
     m_out b @ (if op = m_last_op b then [] else close_op_text (m_last_op b) @ open_op_text op)"
  by (simp add: open_close_op_tag_def)

lemma grouped_Nil [simp]: "grouped options [] = []"
  by (simp add: grouped_def)

lemma grouped_Cons:
  "grouped options (i # rest) =
     open_op_text (run_operation i) @ element i options @
     concat (map (\<lambda>i. element i options) (takeWhile (same_run (run_operation i)) rest)) @
     close_op_text (run_operation i) @ grouped options (dropWhile (same_run (run_operation i)) rest)"
  by (simp add: grouped_def)

lemma apply_items_grouped:
  assumes "use_change_ops (m_options b)"
  shows "m_out (open_close_op_tag op_none (apply_items xs b)) =
     m_out b @ concat (map (\<lambda>i. element i (m_options b)) (takeWhile (same_run (m_last_op b)) xs)) @
     close_op_text (m_last_op b) @ grouped (m_options b) (dropWhile (same_run (m_last_op b)) xs)"
  using assms
proof (induction xs arbitrary: b)
  case Nil
  then show ?case by (simp add: open_close_out)
next
  case (Cons i xs)
  show ?case
  proof (cases "same_run (m_last_op b) i")
    case True
    then have "wrap_step i b = b"
      by (auto simp add: wrap_step_def same_run_def)
    then have step: "apply_item i b = emit (element i (m_options b)) b"
      by (simp add: apply_item_eq)
    show ?thesis
      using Cons.IH [of "emit (element i (m_options b)) b"] Cons.prems True
      by (simp add: step)
  next
    case False
    then obtain op where op: "item_operation i = Some op" "op \<noteq> m_last_op b"
      by (auto simp add: same_run_def)
    then have step: "apply_item i b =
        emit (element i (m_options b)) (open_close_op_tag op b)"
      using Cons.prems by (simp add: apply_item_eq wrap_step_def)
    have run: "run_operation i = op"
      using op by (simp add: run_operation_def)
    show ?thesis
      using Cons.IH [of "emit (element i (m_options b)) (open_close_op_tag op b)"] Cons.prems False op
      by (simp add: step grouped_Cons run open_close_out)
  qed
qed

lemma grouped_from_none:
  "concat (map (\<lambda>i. element i options) (takeWhile (same_run op_none) xs)) @
   grouped options (dropWhile (same_run op_none) xs) = grouped options xs"
proof (cases xs)
  case Nil
  then show ?thesis by simp
next
  case (Cons i rest)
  show ?thesis
  proof (cases "same_run op_none i")
    case True
    then have "run_operation i = op_none"
      by (simp add: same_run_def run_operation_def)
    with True show ?thesis
      by (simp add: Cons grouped_Cons)
  next
    case False
    then show ?thesis by (simp add: Cons)
  qed
qed

lemma block_output_grouped:
  assumes "use_change_ops options"
  shows "fst (call_operator (new_XMLOutputBlock buffer options)) = grouped options buffer"
  using apply_items_grouped [of "new_XMLOutputBlock buffer options" buffer] assms
  by (simp add: call_operator_def Let_def new_XMLOutputBlock_def grouped_from_none)

lemma wrapper_open_iff:
  "wrapper_open t \<longleftrightarrow>
     t = Lit ''  <create>\<newline>'' \<or> t = Lit ''  <modify>\<newline>'' \<or> t = Lit ''  <delete>\<newline>''"
  by (auto simp add: wrapper_open_def)

lemma wrapper_close_iff:
  "wrapper_close t \<longleftrightarrow>
     t = Lit ''  </create>\<newline>'' \<or> t = Lit ''  </modify>\<newline>'' \<or> t = Lit ''  </delete>\<newline>''"
  by (auto simp add: wrapper_close_def)

lemma filter_wrapper_elements [simp]:
  "filter wrapper_open (concat (map (\<lambda>i. element i options) run)) = []"
  "filter wrapper_close (concat (map (\<lambda>i. element i options) run)) = []"
  using no_wrapper_element
  by (auto simp add: filter_empty_conv list_ex_iff wrapper_tag_iff wrapper_open_iff wrapper_close_iff)

lemma filter_wrapper_op_text [simp]:
  "length (filter wrapper_open (open_op_text op)) = (if op = op_none then 0 else 1)"
  "filter wrapper_open (close_op_text op) = []"
  "length (filter wrapper_close (close_op_text op)) = (if op = op_none then 0 else 1)"
  "filter wrapper_close (open_op_text op) = []"
  by (cases op; simp add: wrapper_open_iff wrapper_close_iff)+

lemma grouped_wrappers:
  "length (filter wrapper_open (grouped options xs)) =
     length (filter (\<lambda>r. fst r \<noteq> op_none) (runs xs)) \<and>
   length (filter wrapper_close (grouped options xs)) =
     length (filter (\<lambda>r. fst r \<noteq> op_none) (runs xs))"
proof (induction xs rule: runs.induct)
  case 1
  show ?case by simp
next
  case (2 i rest)
  have "concat (map (\<lambda>i. element i options) (i # takeWhile (same_run (run_operation i)) rest)) =
        element i options @
        concat (map (\<lambda>i. element i options) (takeWhile (same_run (run_operation i)) rest))"
    by simp
  then have
    "filter wrapper_open (element i options @
       concat (map (\<lambda>i. element i options) (takeWhile (same_run (run_operation i)) rest))) = []"
    "filter wrapper_close (element i options @
       concat (map (\<lambda>i. element i options) (takeWhile (same_run (run_operation i)) rest))) = []"
    by (metis filter_wrapper_elements)+
  then show ?case
    using "2.IH" by (simp add: grouped_Cons)
qed

lemma operations_not_none: "op_none \<notin> set (List.map_filter item_operation xs)"
  by (induction xs) (auto split: option.split)

lemma operations_dropWhile:
  "dropWhile (\<lambda>y. y = op) (List.map_filter item_operation xs) =
   List.map_filter item_operation (dropWhile (same_run op) xs)"
  by (induction xs) (auto simp add: same_run_def split: option.split)

lemma runs_operations:
  "map fst (filter (\<lambda>r. fst r \<noteq> op_none) (runs xs)) =
   remdups_adj (List.map_filter item_operation xs)"
proof (induction xs rule: runs.induct)
  case 1
  show ?case by simp
next
  case (2 i rest)
  show ?case
  proof (cases "item_operation i")
    case None
    have "List.map_filter item_operation rest =
          dropWhile (\<lambda>y. y = op_none) (List.map_filter item_operation rest)"
      using operations_not_none [of rest]
      by (cases "List.map_filter item_operation rest") auto
    then show ?thesis
      using "2.IH" None by (simp add: run_operation_def operations_dropWhile)
  next
    case (Some op)
    then have "op \<noteq> op_none"
      using item_operation_not_none [of i] by auto
    with Some show ?thesis
      using "2.IH"
      by (simp add: run_operation_def remdups_adj_Cons' operations_dropWhile)
  qed
qed

lemma runs_concat: "concat (map snd (runs xs)) = xs"
  by (induction xs rule: runs.induct) simp_all

lemma same_run_self: "same_run (run_operation i) i"
  by (cases "item_operation i") (simp_all add: same_run_def run_operation_def)

lemma runs_same:
  "list_all (\<lambda>r. list_all (same_run (fst r)) (snd r)) (runs xs)"
  by (induction xs rule: runs.induct)
    (auto simp add: same_run_self list_all_iff dest: set_takeWhileD)

lemma sample_buffer_operations:
  "List.map_filter item_operation sample_buffer =
     [op_create, op_create, op_modify, op_delete, op_delete]"
  by (simp add: sample_buffer_def sample_node_def sample_way_def sample_relation_def
      object_operation_def)

lemma result_of_fulfil [simp]: "result_of (fulfil p) = result_of p"
  by (cases p) simp_all

lemma step_results:
  assumes "step options e s = Inr s'"
  shows "map Inr (sink s' @ map result_of (m_output_queue s')) =
         map Inr (sink s @ map result_of (m_output_queue s)) @
         (if is_call e then [call_result options e] else [])"
proof (cases e)
  case (Write_header header)
  with assms obtain out where "write_header options header = Inr out"
    "s' = push (Fulfilled out) s"
    by (cases "write_header options header") auto
  with Write_header show ?thesis
    by (simp add: push_def)
next
  case (Write_buffer buffer)
  with assms show ?thesis
    by (auto simp add: push_def write_buffer_def block_string_def)
next
  case Write_end
  with assms show ?thesis
    by (auto simp add: push_def)
next
  case (Worker_completes n)
  with assms show ?thesis
    by (auto simp add: map_update list_update_same_conv)
next
  case Drain
  with assms show ?thesis
    by (auto simp add: pop_next_ready_or_wait_def split: list.split pending_result.split)
qed

lemma run_results:
  "run_schedule options schedule s = Inr s' \<Longrightarrow>
   map Inr (sink s' @ map result_of (m_output_queue s')) =
   map Inr (sink s @ map result_of (m_output_queue s)) @
   map (call_result options) (filter is_call schedule)"
proof (induction schedule arbitrary: s)
  case Nil
  then show ?case by simp
next
  case (Cons e schedule)
  then obtain s1 where s1: "step options e s = Inr s1"
    "run_schedule options schedule s1 = Inr s'"
    by (cases "step options e s") auto
  show ?case
    using Cons.IH [OF s1(2)] step_results [OF s1(1)] by simp
qed

lemma run_returns:
  "list_all (\<lambda>e. \<exists>out. call_result options e = Inr out) (filter is_call schedule) \<Longrightarrow>
   \<exists>s'. run_schedule options schedule s = Inr s'"
proof (induction schedule arbitrary: s)
  case Nil
  show ?case by simp
next
  case (Cons e schedule)
  have "\<exists>s1. step options e s = Inr s1"
    using Cons.prems by (cases e) auto
  then obtain s1 where s1: "step options e s = Inr s1" ..
  have "\<exists>s'. run_schedule options schedule s1 = Inr s'"
    using Cons.prems by (intro Cons.IH) (simp split: if_splits)
  with s1 show ?case by simp
qed

lemma run_append:
  "run_schedule options (xs @ ys) s =
     (case run_schedule options xs s of
        Inl x \<Rightarrow> Inl x
      | Inr s' \<Rightarrow> run_schedule options ys s')"
  by (induction xs arbitrary: s) (simp_all split: sum.split)

lemma run_header_throws:
  "write_header options header = Inl x \<Longrightarrow>
   run_schedule options (Write_header header # schedule) s = Inl x"
  by simp

lemma drain_all:
  "\<exists>s'. run_schedule options
          (concat (replicate (length (m_output_queue s)) [Worker_completes 0, Drain])) s = Inr s' \<and>
        m_output_queue s' = []"
proof (induction "length (m_output_queue s)" arbitrary: s)
  case 0
  then show ?case by simp
next
  case (Suc n)
  then obtain p rest where q: "m_output_queue s = p # rest"
    by (cases "m_output_queue s") auto
  define s1 where "s1 = pop_next_ready_or_wait (s\<lparr>m_output_queue := fulfil p # rest\<rparr>)"
  have "m_output_queue s1 = rest"
    by (cases p) (simp_all add: s1_def pop_next_ready_or_wait_def)
  with Suc q obtain s' where
    "run_schedule options (concat (replicate n [Worker_completes 0, Drain])) s1 = Inr s'"
    "m_output_queue s' = []"
    by (metis length_Cons nat.inject)
  then show ?case
    using Suc.hyps(2) [symmetric] q by (simp add: s1_def)
qed

section \<open>The claims\<close>

text \<open>
  C8. A node with id 1, visible, without location and without tags, encoded with
  \<open>add_metadata\<close> off and \<open>use_change_ops\<close> off, renders as exactly two spaces,
  \<^verbatim>\<open><node id="1"/>\<close> and a newline, whatever the formatting routines are.
\<close>

theorem node_example:
  assumes "object_id n = 1" "visible n" "location n = None" "tags n = []"
    "\<not> add_metadata options" "\<not> use_change_ops options"
  shows "text_of h (fst (call_operator (new_XMLOutputBlock [INode n] options)))
           = ''  <node id=\"1\"/>\<newline>''"
proof -
  have "element (INode n) options =
          [Lit '' '', Lit '' '', Lit ''<node'', Lit '' id=\"'', Dec 1, Lit ''\"'', Lit ''/>\<newline>'']"
    using assms
    by (simp add: element_def node_def Let_def write_prefix_eq indent_eq write_meta_eq meta_text_eq
        numeral_2_eq_2)
  then show ?thesis
    using assms
    by (simp add: call_operator_def new_XMLOutputBlock_def node_eq wrap_step_def text_of_def
        dec_def dec_nat.simps digit_def)
qed

theorem node_example_witness:
  "object_id (sample_node 1 0 True []) = 1 \<and> visible (sample_node 1 0 True []) \<and>
   location (sample_node 1 0 True []) = None \<and> tags (sample_node 1 0 True []) = [] \<and>
   \<not> add_metadata plain_options \<and> \<not> use_change_ops plain_options \<and>
   (\<forall>h. text_of h
      (fst (call_operator (new_XMLOutputBlock [INode (sample_node 1 0 True [])] plain_options)))
     = ''  <node id=\"1\"/>\<newline>'')"
  using node_example [of "sample_node 1 0 True []" plain_options]
  by (simp add: sample_node_def plain_options_def)

text \<open>
  C2, as the code has it. With \<open>use_change_ops\<close> set, the operation a node, way or relation
  leaves in \<open>m_last_op\<close> is delete if the object is not visible, otherwise create if its
  version equals 1, otherwise modify; an absent version (0) of a visible object gives modify.
\<close>

theorem inferred_operation:
  assumes "use_change_ops (m_options b)"
  shows "m_last_op (node n b) =
           (if \<not> visible n then op_delete else if version n = 1 then op_create else op_modify) \<and>
         m_last_op (way w b) =
           (if \<not> visible w then op_delete else if version w = 1 then op_create else op_modify) \<and>
         m_last_op (relation r b) =
           (if \<not> visible r then op_delete else if version r = 1 then op_create else op_modify)"
  using assms by (simp add: node_eq way_eq relation_eq wrap_step_def object_operation_def)

theorem inferred_operation_witness:
  "use_change_ops (m_options (new_XMLOutputBlock [] change_options)) \<and>
   m_last_op (node (sample_node 1 1 True []) (new_XMLOutputBlock [] change_options)) = op_create \<and>
   m_last_op (way (sample_way 2 0 True [] []) (new_XMLOutputBlock [] change_options)) = op_modify \<and>
   m_last_op (relation (sample_relation 3 5 False [] []) (new_XMLOutputBlock [] change_options))
     = op_delete"
  using inferred_operation [of "new_XMLOutputBlock [] change_options" "sample_node 1 1 True []"
      "sample_way 2 0 True [] []" "sample_relation 3 5 False [] []"]
  by (simp add: new_XMLOutputBlock_def change_options_def sample_node_def sample_way_def
      sample_relation_def)

text \<open>
  C2, as the specification words it, fails: a visible node without a version (version 0)
  is grouped under modify, where the specification's rule gives create.
\<close>

theorem inferred_operation_counterexample:
  "m_last_op (node (sample_node 7 0 True []) (new_XMLOutputBlock [] change_options)) = op_modify \<and>
   inferred_operation_spec (visible (sample_node 7 0 True [])) (version (sample_node 7 0 True []))
     = op_create"
  by (simp add: node_eq wrap_step_def object_operation_def sample_node_def change_options_def
      new_XMLOutputBlock_def inferred_operation_spec_def)

text \<open>
  C4. In the options the constructor derives from a file, \<open>add_visible_flag\<close> and
  \<open>use_change_ops\<close> are never both true: \<open>use_change_ops\<close> is \<open>xml_change_format\<close>, and
  when that is true \<open>add_visible_flag\<close> is false whatever \<open>force_visible_flag\<close> and the
  multiple-object-versions property say.
\<close>

theorem visible_flag_excludes_change_ops:
  "use_change_ops (XMLOutputFormat file) = is_true file ''xml_change_format'' \<and>
   add_visible_flag (XMLOutputFormat file) =
     ((has_multiple_object_versions file \<or> is_true file ''force_visible_flag'')
      \<and> \<not> is_true file ''xml_change_format'') \<and>
   \<not> (add_visible_flag (XMLOutputFormat file) \<and> use_change_ops (XMLOutputFormat file)) \<and>
   (is_true file ''xml_change_format'' \<longrightarrow> \<not> add_visible_flag (XMLOutputFormat file))"
  by (simp add: XMLOutputFormat_def Let_def)

theorem visible_flag_excludes_change_ops_witness:
  "is_true sample_file ''xml_change_format'' \<and> is_true sample_file ''force_visible_flag'' \<and>
   has_multiple_object_versions sample_file \<and>
   use_change_ops (XMLOutputFormat sample_file) \<and> \<not> add_visible_flag (XMLOutputFormat sample_file)"
  using visible_flag_excludes_change_ops [of sample_file]
  by (simp add: sample_file_def)

text \<open>
  C6. A node without tags, a way without tags and node references, and a relation without
  tags and members are each written as one self-closed element, with no closing tag. With
  at least one tag the element is an opening tag, its children (one per tag, node reference
  or member) and the matching closing tag. The element is what \<open>node\<close>, \<open>way\<close> and
  \<open>relation\<close> append after the wrapper step.
\<close>

theorem self_closing_rule:
  "(tags n = [] \<longrightarrow>
      self_closed (Lit ''<node'') (Lit ''</node>\<newline>'') (element (INode n) options)) \<and>
   (tags w = [] \<and> nodes w = [] \<longrightarrow>
      self_closed (Lit ''<way'') (Lit ''</way>\<newline>'') (element (IWay w) options)) \<and>
   (tags r = [] \<and> members r = [] \<longrightarrow>
      self_closed (Lit ''<relation'') (Lit ''</relation>\<newline>'') (element (IRelation r) options)) \<and>
   (tags n' \<noteq> [] \<longrightarrow>
      open_close_pair (Lit ''<node'') (Lit ''</node>\<newline>'') (element (INode n') options) \<and>
      count_list (element (INode n') options) (Lit ''  <tag k=\"'') = length (tags n')) \<and>
   (tags w' \<noteq> [] \<longrightarrow>
      open_close_pair (Lit ''<way'') (Lit ''</way>\<newline>'') (element (IWay w') options) \<and>
      count_list (element (IWay w') options) (Lit ''  <tag k=\"'') = length (tags w') \<and>
      count_list (element (IWay w') options) (Lit ''  <nd ref=\"'') = length (nodes w')) \<and>
   (tags r' \<noteq> [] \<longrightarrow>
      open_close_pair (Lit ''<relation'') (Lit ''</relation>\<newline>'') (element (IRelation r') options) \<and>
      count_list (element (IRelation r') options) (Lit ''  <tag k=\"'') = length (tags r') \<and>
      count_list (element (IRelation r') options) (Lit ''  <member type=\"'') = length (members r')) \<and>
   node n b = emit (element (INode n) (m_options b)) (wrap_step (INode n) b) \<and>
   way w b = emit (element (IWay w) (m_options b)) (wrap_step (IWay w) b) \<and>
   relation r b = emit (element (IRelation r) (m_options b)) (wrap_step (IRelation r) b)"
  using self_closed_node [of n options] self_closed_way [of w options]
    self_closed_relation [of r options] open_close_node [of n' options]
    open_close_way [of w' options] open_close_relation [of r' options]
    children_count(1) [of n' options] children_count(2,3) [of w' options]
    children_count(4,5) [of r' options]
    node_eq [of n b] way_eq [of w b] relation_eq [of r b]
  by simp

theorem self_closing_rule_witness:
  "tags (sample_node 1 1 True []) = [] \<and>
   tags (sample_way 2 1 True [] []) = [] \<and> nodes (sample_way 2 1 True [] []) = [] \<and>
   tags (sample_relation 3 1 True [] []) = [] \<and> members (sample_relation 3 1 True [] []) = [] \<and>
   tags (sample_node 4 1 True [(''k'', ''v'')]) \<noteq> [] \<and>
   tags (sample_way 5 1 True [(''k'', ''v'')] [1, 4]) \<noteq> [] \<and>
   tags (sample_relation 6 1 True [(''k'', ''v'')] []) \<noteq> [] \<and>
   self_closed (Lit ''<node'') (Lit ''</node>\<newline>'') (element (INode (sample_node 1 1 True [])) plain_options) \<and>
   self_closed (Lit ''<way'') (Lit ''</way>\<newline>'') (element (IWay (sample_way 2 1 True [] [])) plain_options) \<and>
   self_closed (Lit ''<relation'') (Lit ''</relation>\<newline>'')
     (element (IRelation (sample_relation 3 1 True [] [])) plain_options) \<and>
   open_close_pair (Lit ''<node'') (Lit ''</node>\<newline>'')
     (element (INode (sample_node 4 1 True [(''k'', ''v'')])) plain_options) \<and>
   open_close_pair (Lit ''<way'') (Lit ''</way>\<newline>'')
     (element (IWay (sample_way 5 1 True [(''k'', ''v'')] [1, 4])) plain_options) \<and>
   count_list (element (IWay (sample_way 5 1 True [(''k'', ''v'')] [1, 4])) plain_options)
     (Lit ''  <nd ref=\"'') = 2 \<and>
   open_close_pair (Lit ''<relation'') (Lit ''</relation>\<newline>'')
     (element (IRelation (sample_relation 6 1 True [(''k'', ''v'')] [])) plain_options)"
  using self_closing_rule [of "sample_node 1 1 True []" plain_options "sample_way 2 1 True [] []"
      "sample_relation 3 1 True [] []" "sample_node 4 1 True [(''k'', ''v'')]"
      "sample_way 5 1 True [(''k'', ''v'')] [1, 4]" "sample_relation 6 1 True [(''k'', ''v'')] []"]
  by (simp add: sample_node_def sample_way_def sample_relation_def)

text \<open>
  C5. A changeset without tags and with \<open>num_comments = 0\<close> is written as one self-closed
  element: no closing tag, no discussion block. A changeset with \<open>num_comments > 0\<close> has
  the explicit closing tag and exactly one discussion block, which holds one comment entry
  per comment of its discussion and ends right before the closing tag. A changeset with a
  tag has the closing tag as well.
\<close>

theorem changeset_closing:
  "(cs_tags c = [] \<and> num_comments c = 0 \<longrightarrow>
      self_closed (Lit '' <changeset'') (Lit '' </changeset>\<newline>'') (element (IChangeset c) options) \<and>
      Lit ''  <discussion>\<newline>'' \<notin> set (element (IChangeset c) options) \<and>
      Lit ''   <comment uid=\"'' \<notin> set (element (IChangeset c) options)) \<and>
   (0 < num_comments c' \<longrightarrow>
      open_close_pair (Lit '' <changeset'') (Lit '' </changeset>\<newline>'') (element (IChangeset c') options) \<and>
      count_list (element (IChangeset c') options) (Lit ''  <discussion>\<newline>'') = 1 \<and>
      count_list (element (IChangeset c') options) (Lit ''  </discussion>\<newline>'') = 1 \<and>
      count_list (element (IChangeset c') options) (Lit ''   <comment uid=\"'') = length (discussion c') \<and>
      (\<exists>before. element (IChangeset c') options =
         before @ Lit ''  <discussion>\<newline>'' # comments_text (discussion c') options @
         [Lit ''  </discussion>\<newline>'', Lit '' </changeset>\<newline>''])) \<and>
   (cs_tags c'' \<noteq> [] \<longrightarrow>
      open_close_pair (Lit '' <changeset'') (Lit '' </changeset>\<newline>'') (element (IChangeset c'') options)) \<and>
   changeset c b = emit (element (IChangeset c) (m_options b)) b"
proof -
  have pair: "open_close_pair (Lit '' <changeset'') (Lit '' </changeset>\<newline>'') (element (IChangeset x) options)"
    if "\<not> (cs_tags x = [] \<and> num_comments x = 0)" for x
  proof -
    define children where
      "children = tags_text (cs_tags x) 0 options @
         (if 0 < num_comments x
          then Lit ''  <discussion>\<newline>'' # comments_text (discussion x) options @
               [Lit ''  </discussion>\<newline>'']
          else [])"
    have eq: "element (IChangeset x) options =
        replicate 0 (Lit '' '') @ Lit '' <changeset'' # changeset_attributes x @ Lit ''>\<newline>'' #
        children @ [Lit '' </changeset>\<newline>'']"
      using that by (auto simp add: element_changeset children_def)
    have "Lit '' </changeset>\<newline>'' \<notin> set children"
      by (simp add: children_def count_list_0_iff [symmetric])
    then show ?thesis
      unfolding eq by (intro open_close_pairI) (simp_all add: changeset_attributes_no_end)
  qed
  have closed: "self_closed (Lit '' <changeset'') (Lit '' </changeset>\<newline>'') (element (IChangeset c) options)"
    if "cs_tags c = [] \<and> num_comments c = 0"
  proof -
    have eq: "element (IChangeset c) options =
        replicate 0 (Lit '' '') @ Lit '' <changeset'' # changeset_attributes c @ [Lit ''/>\<newline>'']"
      using that by (simp add: element_changeset)
    have "Lit '' </changeset>\<newline>'' \<notin> set (changeset_attributes c)"
      by (simp add: count_list_0_iff [symmetric])
    then show ?thesis
      unfolding eq by (intro self_closedI) (simp_all add: changeset_attributes_no_end)
  qed
  have none: "Lit ''  <discussion>\<newline>'' \<notin> set (element (IChangeset c) options) \<and>
      Lit ''   <comment uid=\"'' \<notin> set (element (IChangeset c) options)"
    if "cs_tags c = [] \<and> num_comments c = 0"
    using that by (simp add: element_changeset count_list_0_iff [symmetric])
  have counts: "count_list (element (IChangeset c') options) (Lit ''  <discussion>\<newline>'') = 1 \<and>
      count_list (element (IChangeset c') options) (Lit ''  </discussion>\<newline>'') = 1 \<and>
      count_list (element (IChangeset c') options) (Lit ''   <comment uid=\"'') = length (discussion c')"
    if "0 < num_comments c'"
    using that by (auto simp add: element_changeset)
  have shape: "\<exists>before. element (IChangeset c') options =
         before @ Lit ''  <discussion>\<newline>'' # comments_text (discussion c') options @
         [Lit ''  </discussion>\<newline>'', Lit '' </changeset>\<newline>'']"
    if "0 < num_comments c'"
    using that
    by (intro exI [of _ "Lit '' <changeset'' # changeset_attributes c' @ Lit ''>\<newline>'' #
          tags_text (cs_tags c') 0 options"]) (auto simp add: element_changeset)
  have "0 < num_comments c' \<Longrightarrow> \<not> (cs_tags c' = [] \<and> num_comments c' = 0)"
    by auto
  then show ?thesis
    using pair [of c'] pair [of c''] closed none counts shape changeset_eq [of c b]
    by blast
qed

theorem changeset_closing_witness:
  "cs_tags (sample_changeset [] 0 []) = [] \<and> num_comments (sample_changeset [] 0 []) = 0 \<and>
   0 < num_comments (sample_changeset [] 2 [sample_comment, sample_comment]) \<and>
   cs_tags (sample_changeset [(''k'', ''v'')] 0 []) \<noteq> [] \<and>
   self_closed (Lit '' <changeset'') (Lit '' </changeset>\<newline>'')
     (element (IChangeset (sample_changeset [] 0 [])) plain_options) \<and>
   Lit ''  <discussion>\<newline>'' \<notin> set (element (IChangeset (sample_changeset [] 0 [])) plain_options) \<and>
   open_close_pair (Lit '' <changeset'') (Lit '' </changeset>\<newline>'')
     (element (IChangeset (sample_changeset [] 2 [sample_comment, sample_comment])) plain_options) \<and>
   count_list (element (IChangeset (sample_changeset [] 2 [sample_comment, sample_comment])) plain_options)
     (Lit ''  <discussion>\<newline>'') = 1 \<and>
   count_list (element (IChangeset (sample_changeset [] 2 [sample_comment, sample_comment])) plain_options)
     (Lit ''   <comment uid=\"'') = 2 \<and>
   open_close_pair (Lit '' <changeset'') (Lit '' </changeset>\<newline>'')
     (element (IChangeset (sample_changeset [(''k'', ''v'')] 0 [])) plain_options)"
  using changeset_closing [of "sample_changeset [] 0 []" plain_options
      "sample_changeset [] 2 [sample_comment, sample_comment]"
      "sample_changeset [(''k'', ''v'')] 0 []"]
  by (simp add: sample_changeset_def)

text \<open>
  C10. What \<open>changeset\<close> appends is the same for any two blocks, whatever their options,
  their \<open>m_last_op\<close> and their output so far. It leaves \<open>m_last_op\<close> and the options as
  they were, appends no wrapper tag, and writes the counts always and user and uid, the
  timestamps and the bounds whenever the changeset has them, with no \<open>add_metadata\<close> gate.
\<close>

theorem changeset_ignores_options:
  "appended (changeset c) b1 = appended (changeset c) b2 \<and>
   text_of h (appended (changeset c) b1) = text_of h (appended (changeset c) b2) \<and>
   m_out (changeset c b1) = m_out b1 @ appended (changeset c) b1 \<and>
   m_last_op (changeset c b1) = m_last_op b1 \<and>
   m_options (changeset c b1) = m_options b1 \<and>
   \<not> list_ex wrapper_tag (appended (changeset c) b1) \<and>
   Lit '' num_changes=\"'' \<in> set (appended (changeset c) b1) \<and>
   Lit '' comments_count=\"'' \<in> set (appended (changeset c) b1) \<and>
   (\<not> cs_user_is_anonymous c \<longrightarrow>
      Lit '' user=\"'' \<in> set (appended (changeset c) b1) \<and>
      Lit ''\" uid=\"'' \<in> set (appended (changeset c) b1)) \<and>
   (created_at c \<noteq> 0 \<longrightarrow> Lit '' created_at=\"'' \<in> set (appended (changeset c) b1)) \<and>
   (closed_at c \<noteq> 0 \<longrightarrow> Lit '' closed_at=\"'' \<in> set (appended (changeset c) b1)) \<and>
   (bounds c \<noteq> None \<longrightarrow>
      Lit '' min_lat=\"'' \<in> set (appended (changeset c) b1) \<and>
      Lit '' min_lon=\"'' \<in> set (appended (changeset c) b1) \<and>
      Lit '' max_lat=\"'' \<in> set (appended (changeset c) b1) \<and>
      Lit '' max_lon=\"'' \<in> set (appended (changeset c) b1))"
proof -
  have app: "appended (changeset c) b = element (IChangeset c) (m_options b)" for b
    by (simp add: appended_def changeset_eq)
  have same: "appended (changeset c) b1 = appended (changeset c) b2"
    unfolding app by (rule element_changeset_options)
  have frame: "m_out (changeset c b1) = m_out b1 @ appended (changeset c) b1 \<and>
      m_last_op (changeset c b1) = m_last_op b1 \<and> m_options (changeset c b1) = m_options b1"
    unfolding app by (simp add: changeset_eq)
  have wrap: "\<not> list_ex wrapper_tag (appended (changeset c) b1)"
    unfolding app by (rule no_wrapper_element)
  have attrs: "set (changeset_attributes c) \<subseteq> set (appended (changeset c) b1)"
    unfolding app by (auto simp add: element_changeset)
  have always: "Lit '' num_changes=\"'' \<in> set (changeset_attributes c) \<and>
      Lit '' comments_count=\"'' \<in> set (changeset_attributes c)"
    by (simp add: changeset_attributes_eq)
  have user: "Lit '' user=\"'' \<in> set (changeset_attributes c) \<and>
      Lit ''\" uid=\"'' \<in> set (changeset_attributes c)" if "\<not> cs_user_is_anonymous c"
    using that by (simp add: changeset_attributes_eq)
  have created: "Lit '' created_at=\"'' \<in> set (changeset_attributes c)" if "created_at c \<noteq> 0"
    using that by (simp add: changeset_attributes_eq)
  have closed: "Lit '' closed_at=\"'' \<in> set (changeset_attributes c)" if "closed_at c \<noteq> 0"
    using that by (simp add: changeset_attributes_eq)
  have box: "Lit '' min_lat=\"'' \<in> set (changeset_attributes c) \<and>
      Lit '' min_lon=\"'' \<in> set (changeset_attributes c) \<and>
      Lit '' max_lat=\"'' \<in> set (changeset_attributes c) \<and>
      Lit '' max_lon=\"'' \<in> set (changeset_attributes c)" if "bounds c \<noteq> None"
    using that by (cases "bounds c") (simp_all add: changeset_attributes_eq)
  have strings: "text_of h (appended (changeset c) b1) = text_of h (appended (changeset c) b2)"
    using same by simp
  show ?thesis
    using same strings frame wrap attrs always user created closed box by blast
qed

theorem changeset_ignores_options_witness:
  "\<not> cs_user_is_anonymous (sample_changeset [] 0 []) \<and>
   created_at (sample_changeset [] 0 []) \<noteq> 0 \<and> closed_at (sample_changeset [] 0 []) \<noteq> 0 \<and>
   bounds (sample_changeset [] 0 []) \<noteq> None \<and>
   appended (changeset (sample_changeset [] 0 [])) (new_XMLOutputBlock [] plain_options) =
   appended (changeset (sample_changeset [] 0 []))
     (open_close_op_tag op_create (new_XMLOutputBlock [] change_options)) \<and>
   m_last_op (changeset (sample_changeset [] 0 [])
     (open_close_op_tag op_create (new_XMLOutputBlock [] change_options))) = op_create \<and>
   Lit '' user=\"'' \<in> set (appended (changeset (sample_changeset [] 0 []))
     (new_XMLOutputBlock [] plain_options)) \<and>
   Lit '' created_at=\"'' \<in> set (appended (changeset (sample_changeset [] 0 []))
     (new_XMLOutputBlock [] plain_options)) \<and>
   Lit '' closed_at=\"'' \<in> set (appended (changeset (sample_changeset [] 0 []))
     (new_XMLOutputBlock [] plain_options)) \<and>
   Lit '' min_lat=\"'' \<in> set (appended (changeset (sample_changeset [] 0 []))
     (new_XMLOutputBlock [] plain_options))"
  using changeset_ignores_options [of "sample_changeset [] 0 []" "new_XMLOutputBlock [] plain_options"
      "open_close_op_tag op_create (new_XMLOutputBlock [] change_options)"]
    changeset_ignores_options [of "sample_changeset [] 0 []"
      "open_close_op_tag op_create (new_XMLOutputBlock [] change_options)"
      "new_XMLOutputBlock [] plain_options"]
  by (simp add: sample_changeset_def cs_user_is_anonymous_def)

text \<open>
  C7, as the code has it. \<open>write_header\<close> returns a header string exactly when every
  corner of every box is valid, and throws \<open>invalid_location\<close> otherwise. The top-level
  element of the header string is \<^verbatim>\<open><osmChange version="0.6"\<close> when \<open>use_change_ops\<close> is
  set and \<^verbatim>\<open><osm version="0.6"\<close> otherwise, and the footer is the matching closing tag.
  The upload attribute is in the header string if and only if \<open>use_change_ops\<close> is not
  set and \<open>xml_josm_upload\<close> is exactly \<^verbatim>\<open>true\<close> or \<^verbatim>\<open>false\<close>; it then follows the
  version attribute and carries that value.
\<close>

theorem header_and_footer:
  "(if list_all valid_box (boxes header)
    then \<exists>out. write_header options header = Inr out \<and>
      (\<exists>rest. text_of h out =
         xml_declaration @
         (if use_change_ops options then ''<osmChange version=\"0.6\"'' else ''<osm version=\"0.6\"'') @
         rest) \<and>
      (Lit '' upload=\"'' \<in> set out \<longleftrightarrow>
         \<not> use_change_ops options \<and>
         (header_get header ''xml_josm_upload'' = ''true'' \<or>
          header_get header ''xml_josm_upload'' = ''false'')) \<and>
      (\<not> use_change_ops options \<and>
       (header_get header ''xml_josm_upload'' = ''true'' \<or>
        header_get header ''xml_josm_upload'' = ''false'') \<longrightarrow>
         take 6 out =
           [Lit xml_declaration, Lit ''<osm version=\"0.6\"'', Lit '' upload=\"'',
            Lit (header_get header ''xml_josm_upload''), Lit ''\"'', Lit '' generator=\"''])
    else write_header options header = Inl invalid_location) \<and>
   write_end options =
     (if use_change_ops options then [Lit ''</osmChange>\<newline>''] else [Lit ''</osm>\<newline>''])"
proof (cases "list_all valid_box (boxes header)")
  case False
  then show ?thesis
    by (simp add: write_header_def write_end_def header_bounds_invalid)
next
  case True
  then obtain ts where ts: "header_bounds (boxes header) = Inr ts" "Lit '' upload=\"'' \<notin> set ts"
    using header_bounds_valid by blast
  define out where "out =
     [Lit xml_declaration] @
     (if use_change_ops options then [Lit ''<osmChange version=\"0.6\" generator=\"'']
      else
        [Lit ''<osm version=\"0.6\"''] @
        (if header_get header ''xml_josm_upload'' = ''true'' \<or>
            header_get header ''xml_josm_upload'' = ''false''
         then [Lit '' upload=\"'', Lit (header_get header ''xml_josm_upload''), Lit ''\"'']
         else []) @
        [Lit '' generator=\"'']) @
     [Xml (header_get header ''generator''), Lit ''\">\<newline>''] @ ts"
  have ret: "write_header options header = Inr out"
    by (simp add: write_header_def Let_def ts out_def)
  have top: "\<exists>rest. text_of h out =
      xml_declaration @
      (if use_change_ops options then ''<osmChange version=\"0.6\"'' else ''<osm version=\"0.6\"'') @ rest"
    by (cases "use_change_ops options") (simp_all add: out_def text_of_def)
  have upload: "Lit '' upload=\"'' \<in> set out \<longleftrightarrow>
      \<not> use_change_ops options \<and>
      (header_get header ''xml_josm_upload'' = ''true'' \<or>
       header_get header ''xml_josm_upload'' = ''false'')"
    using ts(2) by (auto simp add: out_def xml_declaration_def)
  have first: "take 6 out =
        [Lit xml_declaration, Lit ''<osm version=\"0.6\"'', Lit '' upload=\"'',
         Lit (header_get header ''xml_josm_upload''), Lit ''\"'', Lit '' generator=\"'']"
    if "\<not> use_change_ops options \<and>
      (header_get header ''xml_josm_upload'' = ''true'' \<or>
       header_get header ''xml_josm_upload'' = ''false'')"
    using that by (auto simp add: out_def)
  show ?thesis
    using True ret top upload first by (simp add: write_end_def)
qed

theorem header_and_footer_witness:
  "list_all valid_box (boxes (sample_header\<lparr>boxes := [sample_box]\<rparr>)) \<and>
   \<not> list_all valid_box (boxes (sample_header\<lparr>boxes := [sample_box, sample_invalid_box]\<rparr>)) \<and>
   \<not> use_change_ops plain_options \<and> header_get sample_header ''xml_josm_upload'' = ''true'' \<and>
   (\<exists>out. write_header plain_options (sample_header\<lparr>boxes := [sample_box]\<rparr>) = Inr out \<and>
      Lit '' upload=\"'' \<in> set out \<and>
      take 6 out =
        [Lit xml_declaration, Lit ''<osm version=\"0.6\"'', Lit '' upload=\"'', Lit ''true'',
         Lit ''\"'', Lit '' generator=\"'']) \<and>
   write_header plain_options (sample_header\<lparr>boxes := [sample_box, sample_invalid_box]\<rparr>)
     = Inl invalid_location \<and>
   write_end plain_options = [Lit ''</osm>\<newline>'']"
proof -
  obtain h :: helpers where True
    by simp
  have good: "list_all valid_box (boxes (sample_header\<lparr>boxes := [sample_box]\<rparr>))"
    by (simp add: sample_box_def valid_box_def valid_location_def)
  have bad: "\<not> list_all valid_box (boxes (sample_header\<lparr>boxes := [sample_box, sample_invalid_box]\<rparr>))"
    by (simp add: sample_invalid_box_def valid_box_def valid_location_def)
  have opts: "\<not> use_change_ops plain_options" "header_get sample_header ''xml_josm_upload'' = ''true''"
    by (simp_all add: plain_options_def sample_header_def)
  have 1: "\<exists>out. write_header plain_options (sample_header\<lparr>boxes := [sample_box]\<rparr>) = Inr out \<and>
      Lit '' upload=\"'' \<in> set out \<and>
      take 6 out =
        [Lit xml_declaration, Lit ''<osm version=\"0.6\"'', Lit '' upload=\"'', Lit ''true'',
         Lit ''\"'', Lit '' generator=\"'']"
    using header_and_footer [of "sample_header\<lparr>boxes := [sample_box]\<rparr>" plain_options h]
      good opts
    by (auto simp add: sample_header_def)
  have 2: "write_header plain_options (sample_header\<lparr>boxes := [sample_box, sample_invalid_box]\<rparr>)
     = Inl invalid_location"
    using header_and_footer [of "sample_header\<lparr>boxes := [sample_box, sample_invalid_box]\<rparr>"
        plain_options h] bad
    by simp
  have 3: "write_end plain_options = [Lit ''</osm>\<newline>'']"
    using header_and_footer [of sample_header plain_options h] opts by simp
  show ?thesis
    using good bad opts 1 2 3 by blast
qed

text \<open>
  C7, as the specification words it, fails: in the change format the header has no upload
  attribute although \<open>xml_josm_upload\<close> is exactly \<^verbatim>\<open>true\<close>.
\<close>

theorem upload_attribute_counterexample:
  "header_get sample_header ''xml_josm_upload'' = ''true'' \<and>
   write_header change_options sample_header =
     Inr [Lit xml_declaration, Lit ''<osmChange version=\"0.6\" generator=\"'', Xml ''test'',
          Lit ''\">\<newline>''] \<and>
   Lit '' upload=\"'' \<notin>
     set [Lit xml_declaration, Lit ''<osmChange version=\"0.6\" generator=\"'', Xml ''test'',
          Lit ''\">\<newline>'']"
  by (simp add: write_header_def change_options_def sample_header_def xml_declaration_def)

text \<open>
  C9, as the code has it. \<open>check_for_exception\<close> throws the stored exception if and only
  if the future is valid, ready and holds an exception. A valid, ready future that holds a
  value is consumed and the call returns normally. When the future is not valid or not yet
  ready, the call returns normally and leaves the future as it was. It never blocks.
\<close>

theorem check_for_exception_result:
  "(fst (check_for_exception f) = Throws e \<longleftrightarrow> f = Some (ready_exception e)) \<and>
   (valid f \<and> wait_for_0 f = ready \<longleftrightarrow>
      (\<exists>v. f = Some (ready_value v)) \<or> (\<exists>x. f = Some (ready_exception x))) \<and>
   (\<not> (valid f \<and> wait_for_0 f = ready) \<longrightarrow> check_for_exception f = (Returns (), f)) \<and>
   (f = Some (ready_value v) \<longrightarrow> check_for_exception f = (Returns (), None)) \<and>
   (f = Some (ready_exception e) \<longrightarrow> check_for_exception f = (Throws e, None)) \<and>
   fst (check_for_exception f) \<noteq> Blocks \<and>
   fst (check_for_exception f) \<noteq> Undefined_behaviour"
proof (cases f)
  case None
  then show ?thesis by (simp add: check_for_exception_def valid_def)
next
  case (Some s)
  then show ?thesis
    by (cases s) (auto simp add: check_for_exception_def valid_def)
qed

theorem check_for_exception_result_witness:
  "\<not> (valid (Some not_ready :: (nat, string) future) \<and>
      wait_for_0 (Some not_ready :: (nat, string) future) = ready) \<and>
   check_for_exception (Some not_ready :: (nat, string) future) = (Returns (), Some not_ready) \<and>
   \<not> (valid (None :: (nat, string) future) \<and> wait_for_0 (None :: (nat, string) future) = ready) \<and>
   check_for_exception (None :: (nat, string) future) = (Returns (), None) \<and>
   check_for_exception (Some (ready_value 42) :: (nat, string) future) = (Returns (), None) \<and>
   check_for_exception (Some (ready_exception ''failed'') :: (nat, string) future)
     = (Throws ''failed'', None)"
  using check_for_exception_result [of "Some not_ready :: (nat, string) future" "''failed''" 42]
    check_for_exception_result [of "None :: (nat, string) future" "''failed''" 42]
    check_for_exception_result [of "Some (ready_value 42) :: (nat, string) future" "''failed''" 42]
    check_for_exception_result [of "Some (ready_exception ''failed'') :: (nat, string) future" "''failed''" 42]
  by (simp add: valid_def)

text \<open>
  C9, as the specification words it, fails: a future that is valid and already ready with
  a value makes \<open>check_for_exception\<close> return normally; nothing is thrown.
\<close>

theorem check_for_exception_counterexample:
  "valid (Some (ready_value 42) :: (nat, string) future) \<and>
   wait_for_0 (Some (ready_value 42) :: (nat, string) future) = ready \<and>
   check_for_exception (Some (ready_value 42) :: (nat, string) future) = (Returns (), None)"
  by (simp add: check_for_exception_def valid_def)

text \<open>
  C3. With \<open>use_change_ops\<close> set, the string a block returns is the grouped output of its
  buffer: for each maximal contiguous run of equal operations, the opening wrapper tag, the
  elements of the run, and the closing wrapper tag. The runs partition the buffer, and their
  operations are the operations of the buffer's objects with repetitions of neighbours
  removed. So with \<open>k\<close> such runs the output holds exactly \<open>k\<close> opening and \<open>k\<close>
  closing wrapper tags, and no wrapper is left open when the string is returned.
\<close>

theorem change_op_grouping:
  assumes "use_change_ops options"
  shows "fst (call_operator (new_XMLOutputBlock buffer options)) = grouped options buffer \<and>
    map fst (filter (\<lambda>r. fst r \<noteq> op_none) (runs buffer)) =
      remdups_adj (List.map_filter item_operation buffer) \<and>
    concat (map snd (runs buffer)) = buffer \<and>
    list_all (\<lambda>r. list_all (same_run (fst r)) (snd r)) (runs buffer) \<and>
    length (filter wrapper_open (fst (call_operator (new_XMLOutputBlock buffer options)))) =
      length (remdups_adj (List.map_filter item_operation buffer)) \<and>
    length (filter wrapper_close (fst (call_operator (new_XMLOutputBlock buffer options)))) =
      length (remdups_adj (List.map_filter item_operation buffer)) \<and>
    m_last_op (snd (call_operator (new_XMLOutputBlock buffer options))) = op_none"
proof -
  have k: "length (filter (\<lambda>r. fst r \<noteq> op_none) (runs buffer)) =
      length (remdups_adj (List.map_filter item_operation buffer))"
    using runs_operations [of buffer] by (metis length_map)
  have last: "m_last_op (snd (call_operator (new_XMLOutputBlock buffer options))) = op_none"
    using assms by (simp add: call_operator_def Let_def new_XMLOutputBlock_def)
  show ?thesis
    using block_output_grouped [OF assms, of buffer] grouped_wrappers [of options buffer] k last
      runs_operations [of buffer] runs_concat [of buffer] runs_same [of buffer]
    by simp
qed

theorem change_op_grouping_witness:
  "use_change_ops change_options \<and>
   List.map_filter item_operation sample_buffer =
     [op_create, op_create, op_modify, op_delete, op_delete] \<and>
   fst (call_operator (new_XMLOutputBlock sample_buffer change_options)) =
     grouped change_options sample_buffer \<and>
   map fst (filter (\<lambda>r. fst r \<noteq> op_none) (runs sample_buffer)) = [op_create, op_modify, op_delete] \<and>
   length (filter wrapper_open (fst (call_operator (new_XMLOutputBlock sample_buffer change_options)))) = 3 \<and>
   length (filter wrapper_close (fst (call_operator (new_XMLOutputBlock sample_buffer change_options)))) = 3 \<and>
   m_last_op (snd (call_operator (new_XMLOutputBlock sample_buffer change_options))) = op_none"
proof -
  have u: "use_change_ops change_options"
    by (simp add: change_options_def)
  have r: "remdups_adj (List.map_filter item_operation sample_buffer) =
      [op_create, op_modify, op_delete]"
    by (simp add: sample_buffer_operations)
  have k: "length [op_create, op_modify, op_delete] = 3"
    by simp
  show ?thesis
    using change_op_grouping [OF u, of sample_buffer] u sample_buffer_operations
    unfolding r k by blast
qed

text \<open>
  C1. Take any schedule of a session: the controller's calls are one \<open>write_header\<close>
  that returns its header string, one \<open>write_buffer\<close> per buffer in order and one
  \<open>write_end\<close>, interleaved in any way with worker completions in any order and with
  drain steps. The schedule runs to its end without an exception. The strings the sink has
  received are at every moment a prefix of the header string, the block strings in the
  order of the buffers, and the footer string. Once the queue is empty they are exactly
  that sequence, and from every state completing and draining the remaining results
  empties the queue. (A \<open>write_header\<close> that throws pushes nothing and ends the run.)
\<close>

theorem output_order:
  assumes "filter is_call schedule =
             Write_header header # map Write_buffer buffers @ [Write_end]"
    and "write_header options header = Inr header_string"
  shows "\<exists>s. run_schedule options schedule new_session = Inr s \<and>
           sink s = take (length (sink s)) (expected_output header_string options buffers) \<and>
           (m_output_queue s = [] \<longrightarrow>
              sink s = expected_output header_string options buffers) \<and>
           (\<exists>s'. run_schedule options
                   (schedule @ concat (replicate (length (m_output_queue s))
                      [Worker_completes 0, Drain])) new_session = Inr s' \<and>
                 m_output_queue s' = [] \<and>
                 sink s' = expected_output header_string options buffers)"
proof -
  have calls: "map (call_result options) (filter is_call schedule) =
      map Inr (expected_output header_string options buffers)"
    by (simp add: assms expected_output_def comp_def)
  have inv: "sink s @ map result_of (m_output_queue s) =
      expected_output header_string options buffers"
    if "run_schedule options sched new_session = Inr s" "filter is_call sched = filter is_call schedule"
    for sched s
  proof -
    have "map Inr (sink s @ map result_of (m_output_queue s)) =
        (map Inr (expected_output header_string options buffers) :: (exception + token list) list)"
      using run_results [OF that(1)] that(2) calls by (simp add: new_session_def)
    then show ?thesis
      by (simp only: inj_map_eq_map [OF inj_Inr])
  qed
  have "list_all (\<lambda>e. \<exists>out. call_result options e = Inr out) (filter is_call schedule)"
    by (simp add: assms list_all_iff)
  then obtain s where s: "run_schedule options schedule new_session = Inr s"
    using run_returns by blast
  have 1: "sink s = take (length (sink s)) (expected_output header_string options buffers)"
    using inv [OF s] by (metis append_eq_conv_conj)
  have 2: "sink s = expected_output header_string options buffers" if "m_output_queue s = []"
    using inv [OF s] that by simp
  define rest where
    "rest = concat (replicate (length (m_output_queue s)) [Worker_completes 0, Drain])"
  have none: "filter is_call rest = []"
    by (induction "length (m_output_queue s)") (simp_all add: rest_def filter_concat)
  obtain s' where s': "run_schedule options rest s = Inr s'" "m_output_queue s' = []"
    using drain_all [of options s] unfolding rest_def by blast
  have whole: "run_schedule options (schedule @ rest) new_session = Inr s'"
    by (simp add: run_append s s')
  have 3: "sink s' = expected_output header_string options buffers"
    using inv [OF whole] none s'(2) by simp
  show ?thesis
    using s 1 2 whole s'(2) 3 unfolding rest_def by blast
qed

theorem output_order_witness:
  "filter is_call sample_schedule =
     Write_header (sample_header\<lparr>boxes := [sample_box]\<rparr>) #
     map Write_buffer [sample_buffer, [INode (sample_node 1 0 True [])]] @ [Write_end] \<and>
   (\<exists>header_string s before.
      write_header change_options (sample_header\<lparr>boxes := [sample_box]\<rparr>) = Inr header_string \<and>
      run_schedule change_options (take 7 sample_schedule) new_session = Inr before \<and>
      sink before = [header_string] \<and>
      run_schedule change_options sample_schedule new_session = Inr s \<and>
      m_output_queue s = [] \<and>
      sink s = expected_output header_string change_options
        [sample_buffer, [INode (sample_node 1 0 True [])]])"
proof -
  have calls: "filter is_call sample_schedule =
     Write_header (sample_header\<lparr>boxes := [sample_box]\<rparr>) #
     map Write_buffer [sample_buffer, [INode (sample_node 1 0 True [])]] @ [Write_end]"
    by (simp add: sample_schedule_def)
  have "list_all valid_box (boxes (sample_header\<lparr>boxes := [sample_box]\<rparr>))"
    by (simp add: sample_box_def valid_box_def valid_location_def)
  then obtain header_string where
    hdr: "write_header change_options (sample_header\<lparr>boxes := [sample_box]\<rparr>) = Inr header_string"
    using header_bounds_valid [of "[sample_box]"] by (auto simp add: write_header_def Let_def)
  have blocked: "\<exists>before. run_schedule change_options (take 7 sample_schedule) new_session = Inr before \<and>
      sink before = [header_string]"
    by (simp add: sample_schedule_def hdr new_session_def push_def pop_next_ready_or_wait_def)
  obtain s where s: "run_schedule change_options sample_schedule new_session = Inr s"
    "m_output_queue s = [] \<longrightarrow>
       sink s = expected_output header_string change_options
         [sample_buffer, [INode (sample_node 1 0 True [])]]"
    using output_order [OF calls hdr] by blast
  have "\<exists>t. run_schedule change_options sample_schedule new_session = Inr t \<and> m_output_queue t = []"
    by (simp add: sample_schedule_def hdr new_session_def push_def pop_next_ready_or_wait_def)
  with s have "m_output_queue s = []"
    by auto
  with s calls hdr blocked show ?thesis
    by blast
qed

end
